theory Spec2Isabelle
  imports Main "HOL-Library.Char_ord" "HOL-Library.List_Lexorder"
    "HOL-Library.Product_Lexorder" "HOL-Library.Sublist" "HOL-Library.Word"
begin

section \<open>Python values used by \<open>buckerio/auth.py\<close>\<close>

text \<open>
  A Python \<open>str\<close> is modelled by the list of its UTF-8 bytes (\<open>string\<close>): percent-encoding
  works on exactly these bytes, \<open>str.encode("utf-8")\<close> is the identity on them, and the
  byte-wise lexicographic order of \<open>HOL-Library.List_Lexorder\<close> over \<open>HOL-Library.Char_ord\<close>
  coincides with Python's code-point order of \<open>str\<close>. \<open>str.lower\<close> and \<open>str.strip\<close> are
  modelled on ASCII text (HTTP header names and values); Unicode case mapping and Unicode
  white space outside ASCII are not modelled.

  A \<open>dict\<close> is an association list in insertion order with distinct keys; a tuple
  \<open>(k, v)\<close> is a pair, ordered lexicographically (\<open>HOL-Library.Product_Lexorder\<close>), as
  Python orders tuples.
\<close>

type_synonym pydict = "(string \<times> string) list"

text \<open>\<open>d[k] = v\<close>: an existing key keeps its position, a new key goes last.\<close>

fun dict_set :: "pydict \<Rightarrow> string \<Rightarrow> string \<Rightarrow> pydict" where
  "dict_set [] k v = [(k, v)]"
| "dict_set ((k', v') # d) k v = (if k' = k then (k, v) # d else (k', v') # dict_set d k v)"

text \<open>\<open>{**d, **items}\<close> and dict comprehensions: the items are stored one after another.\<close>

definition dict_update :: "pydict \<Rightarrow> (string \<times> string) list \<Rightarrow> pydict" where
  "dict_update d items = fold (\<lambda>(k, v) d'. dict_set d' k v) items d"

text \<open>\<open>sep.join(xs)\<close>\<close>

fun str_join :: "string \<Rightarrow> string list \<Rightarrow> string" where
  "str_join sep [] = []"
| "str_join sep [x] = x"
| "str_join sep (x # y # ys) = x @ sep @ str_join sep (y # ys)"

text \<open>\<open>sorted(xs)\<close> on a list of tuples of \<open>str\<close>.\<close>

definition py_sorted :: "(string \<times> string) list \<Rightarrow> (string \<times> string) list" where
  "py_sorted xs = sort xs"

subsection \<open>\<open>urllib.parse.quote\<close>, \<open>quote_plus\<close>, \<open>urlencode\<close>\<close>

definition hex_upper :: "nat \<Rightarrow> char" where
  "hex_upper n = ''0123456789ABCDEF'' ! (n mod 16)"

text \<open>\<open>'%{:02X}'.format(b)\<close>\<close>

definition percent_byte :: "char \<Rightarrow> string" where
  "percent_byte c = [CHR ''%'', hex_upper (of_char c div 16), hex_upper (of_char c mod 16)]"

definition always_safe :: string where
  "always_safe = ''ABCDEFGHIJKLMNOPQRSTUVWXYZabcdefghijklmnopqrstuvwxyz0123456789_.-~''"

text \<open>
  \<open>quote_from_bytes\<close>: a byte of \<open>_ALWAYS_SAFE\<close> or of the ASCII part of \<open>safe\<close> is kept,
  every other byte becomes \<open>%XX\<close>.
\<close>

definition quoter :: "string \<Rightarrow> char \<Rightarrow> string" where
  "quoter safe c =
     (if c \<in> set always_safe \<or> (c \<in> set safe \<and> (of_char c :: nat) < 128)
      then [c] else percent_byte c)"

definition quote :: "string \<Rightarrow> string \<Rightarrow> string" where
  "quote s safe = concat (map (quoter safe) s)"

text \<open>
  \<open>quote_plus\<close>: without a space it is \<open>quote\<close>; with one, the space is added to \<open>safe\<close>
  and then replaced by \<open>+\<close>.
\<close>

definition quote_plus :: "string \<Rightarrow> string \<Rightarrow> string" where
  "quote_plus s safe =
     (if CHR '' '' \<notin> set s then quote s safe
      else map (\<lambda>c. if c = CHR '' '' then CHR ''+'' else c) (quote s (safe @ '' '')))"

text \<open>
  \<open>urlencode(query, safe=safe)\<close> on \<open>str\<close> keys and values: \<open>doseq\<close> is false and
  \<open>quote_via\<close> is its default \<open>quote_plus\<close>.
\<close>

definition urlencode :: "(string \<times> string) list \<Rightarrow> string \<Rightarrow> string" where
  "urlencode query safe =
     str_join ''&'' (map (\<lambda>(k, v). quote_plus k safe @ ''='' @ quote_plus v safe) query)"

text \<open>\<open>s.split(c)\<close> for a one-character separator: never empty, \<open>"".split("/") == [""]\<close>.\<close>

fun split_on :: "char \<Rightarrow> string \<Rightarrow> string list" where
  "split_on c [] = [[]]"
| "split_on c (x # xs) =
     (if x = c then [] # split_on c xs
      else (case split_on c xs of [] \<Rightarrow> [[x]] | y # ys \<Rightarrow> (x # y) # ys))"

section \<open>The canonicalizer of \<open>AWSV4Auth\<close>\<close>

definition get_canonical_uri :: "string \<Rightarrow> string" where
  "get_canonical_uri path =
     (let segments = split_on CHR ''/'' path;
          encoded_segments = map (\<lambda>s. quote s '''') segments
      in str_join ''/'' encoded_segments)"

definition get_canonical_query_string :: "pydict \<Rightarrow> string" where
  "get_canonical_query_string query_params =
     (if query_params = [] then ''''
      else (let sorted_params = py_sorted query_params
            in urlencode sorted_params ''-_.~''))"


subsection \<open>\<open>str.lower\<close>, \<open>str.upper\<close>, \<open>str.strip\<close> on ASCII text\<close>

definition lower_char :: "char \<Rightarrow> char" where
  "lower_char c =
     (if CHR ''A'' \<le> c \<and> c \<le> CHR ''Z'' then char_of (of_char c + (32::nat)) else c)"

definition upper_char :: "char \<Rightarrow> char" where
  "upper_char c =
     (if CHR ''a'' \<le> c \<and> c \<le> CHR ''z'' then char_of (of_char c - (32::nat)) else c)"

definition lower :: "string \<Rightarrow> string" where
  "lower s = map lower_char s"

definition upper :: "string \<Rightarrow> string" where
  "upper s = map upper_char s"

text \<open>
  The ASCII characters for which \<open>str.isspace\<close> holds: tab, line feed, vertical tab, form
  feed, carriage return, the separators \<open>0x1c\<close> to \<open>0x1f\<close> and the space.
\<close>

definition is_space :: "char \<Rightarrow> bool" where
  "is_space c =
     (c \<in> set [CHR 0x09, CHR 0x0A, CHR 0x0B, CHR 0x0C, CHR 0x0D,
                 CHR 0x1C, CHR 0x1D, CHR 0x1E, CHR 0x1F, CHR 0x20])"

definition strip :: "string \<Rightarrow> string" where
  "strip s = rev (dropWhile is_space (rev (dropWhile is_space s)))"

abbreviation NL :: string where
  "NL \<equiv> [CHR 0x0A]"

definition get_canonical_headers :: "pydict \<Rightarrow> string \<times> string" where
  "get_canonical_headers headers =
     (let normalized = dict_update [] (map (\<lambda>(k, v). (lower k, strip v)) headers);
          sorted_headers = py_sorted normalized;
          canonical_headers = concat (map (\<lambda>(k, v). k @ '':'' @ v @ NL) sorted_headers);
          signed_headers = str_join '';'' (map fst sorted_headers)
      in (canonical_headers, signed_headers))"

section \<open>\<open>hashlib.sha256\<close> and \<open>hmac\<close>\<close>

text \<open>
  \<open>bytes\<close> are lists of 8-bit words. SHA-256 follows FIPS 180-4 and HMAC follows RFC 2104,
  which is what \<open>hashlib.sha256\<close> and \<open>hmac.new(key, msg, hashlib.sha256)\<close> compute.
\<close>

type_synonym bytes = "8 word list"

definition encode_utf8 :: "string \<Rightarrow> bytes" where
  "encode_utf8 s = map (\<lambda>c. word_of_nat (of_char c)) s"

definition sha256_k :: "32 word list" where
  "sha256_k = concat
     [[0x428a2f98, 0x71374491, 0xb5c0fbcf, 0xe9b5dba5, 0x3956c25b, 0x59f111f1, 0x923f82a4, 0xab1c5ed5],
      [0xd807aa98, 0x12835b01, 0x243185be, 0x550c7dc3, 0x72be5d74, 0x80deb1fe, 0x9bdc06a7, 0xc19bf174],
      [0xe49b69c1, 0xefbe4786, 0x0fc19dc6, 0x240ca1cc, 0x2de92c6f, 0x4a7484aa, 0x5cb0a9dc, 0x76f988da],
      [0x983e5152, 0xa831c66d, 0xb00327c8, 0xbf597fc7, 0xc6e00bf3, 0xd5a79147, 0x06ca6351, 0x14292967],
      [0x27b70a85, 0x2e1b2138, 0x4d2c6dfc, 0x53380d13, 0x650a7354, 0x766a0abb, 0x81c2c92e, 0x92722c85],
      [0xa2bfe8a1, 0xa81a664b, 0xc24b8b70, 0xc76c51a3, 0xd192e819, 0xd6990624, 0xf40e3585, 0x106aa070],
      [0x19a4c116, 0x1e376c08, 0x2748774c, 0x34b0bcb5, 0x391c0cb3, 0x4ed8aa4a, 0x5b9cca4f, 0x682e6ff3],
      [0x748f82ee, 0x78a5636f, 0x84c87814, 0x8cc70208, 0x90befffa, 0xa4506ceb, 0xbef9a3f7, 0xc67178f2]]"

type_synonym sha_state =
  "32 word \<times> 32 word \<times> 32 word \<times> 32 word \<times> 32 word \<times> 32 word \<times> 32 word \<times> 32 word"

definition sha256_h0 :: sha_state where
  "sha256_h0 =
     (0x6a09e667, 0xbb67ae85, 0x3c6ef372, 0xa54ff53a,
      0x510e527f, 0x9b05688c, 0x1f83d9ab, 0x5be0cd19)"

definition be32 :: "32 word \<Rightarrow> bytes" where
  "be32 w = [ucast (drop_bit 24 w), ucast (drop_bit 16 w), ucast (drop_bit 8 w), ucast w]"

definition word32_of :: "8 word \<Rightarrow> 8 word \<Rightarrow> 8 word \<Rightarrow> 8 word \<Rightarrow> 32 word" where
  "word32_of a b c d =
     push_bit 24 (ucast a) + push_bit 16 (ucast b) + push_bit 8 (ucast c) + ucast d"

fun words_of :: "bytes \<Rightarrow> 32 word list" where
  "words_of (a # b # c # d # bs) = word32_of a b c d # words_of bs"
| "words_of _ = []"

primrec blocks :: "nat \<Rightarrow> 32 word list \<Rightarrow> 32 word list list" where
  "blocks 0 ws = []"
| "blocks (Suc n) ws = take 16 ws # blocks n (drop 16 ws)"

text \<open>Padding: the byte \<open>0x80\<close>, zeros up to 56 modulo 64, the bit length on 8 bytes.\<close>

definition sha256_pad :: "bytes \<Rightarrow> bytes" where
  "sha256_pad msg =
     (let l = (word_of_nat (8 * length msg) :: 64 word)
      in msg @ [0x80] @ replicate ((119 - length msg mod 64) mod 64) 0
           @ be32 (ucast (drop_bit 32 l)) @ be32 (ucast l))"

definition ssig0 :: "32 word \<Rightarrow> 32 word" where
  "ssig0 x = xor (xor (word_rotr 7 x) (word_rotr 18 x)) (drop_bit 3 x)"

definition ssig1 :: "32 word \<Rightarrow> 32 word" where
  "ssig1 x = xor (xor (word_rotr 17 x) (word_rotr 19 x)) (drop_bit 10 x)"

definition bsig0 :: "32 word \<Rightarrow> 32 word" where
  "bsig0 x = xor (xor (word_rotr 2 x) (word_rotr 13 x)) (word_rotr 22 x)"

definition bsig1 :: "32 word \<Rightarrow> 32 word" where
  "bsig1 x = xor (xor (word_rotr 6 x) (word_rotr 11 x)) (word_rotr 25 x)"

definition ch :: "32 word \<Rightarrow> 32 word \<Rightarrow> 32 word \<Rightarrow> 32 word" where
  "ch x y z = xor (and x y) (and (not x) z)"

definition maj :: "32 word \<Rightarrow> 32 word \<Rightarrow> 32 word \<Rightarrow> 32 word" where
  "maj x y z = xor (xor (and x y) (and x z)) (and y z)"

primrec extend :: "nat \<Rightarrow> 32 word list \<Rightarrow> 32 word list" where
  "extend 0 w = w"
| "extend (Suc n) w =
     extend n (w @ [ssig1 (w ! (length w - 2)) + w ! (length w - 7)
                    + ssig0 (w ! (length w - 15)) + w ! (length w - 16)])"

fun sha_round :: "32 word \<times> 32 word \<Rightarrow> sha_state \<Rightarrow> sha_state" where
  "sha_round (k, w) (a, b, c, d, e, f, g, h) =
     (let t1 = h + bsig1 e + ch e f g + k + w;
          t2 = bsig0 a + maj a b c
      in (t1 + t2, a, b, c, d + t1, e, f, g))"

fun add_state :: "sha_state \<Rightarrow> sha_state \<Rightarrow> sha_state" where
  "add_state (a, b, c, d, e, f, g, h) (a', b', c', d', e', f', g', h') =
     (a + a', b + b', c + c', d + d', e + e', f + f', g + g', h + h')"

definition compress :: "32 word list \<Rightarrow> sha_state \<Rightarrow> sha_state" where
  "compress block s = add_state s (fold sha_round (zip sha256_k (extend 48 block)) s)"

fun state_bytes :: "sha_state \<Rightarrow> bytes" where
  "state_bytes (a, b, c, d, e, f, g, h) =
     be32 a @ be32 b @ be32 c @ be32 d @ be32 e @ be32 f @ be32 g @ be32 h"

definition sha256 :: "bytes \<Rightarrow> bytes" where
  "sha256 msg =
     (let ws = words_of (sha256_pad msg)
      in state_bytes (fold compress (blocks (length ws div 16) ws) sha256_h0))"

definition hmac_sha256 :: "bytes \<Rightarrow> bytes \<Rightarrow> bytes" where
  "hmac_sha256 key msg =
     (let key' = (if length key > 64 then sha256 key else key);
          key'' = key' @ replicate (64 - length key') 0;
          inner = sha256 (map (\<lambda>b. xor b 0x36) key'' @ msg)
      in sha256 (map (\<lambda>b. xor b 0x5C) key'' @ inner))"

definition hex_lower :: "nat \<Rightarrow> char" where
  "hex_lower n = ''0123456789abcdef'' ! (n mod 16)"

text \<open>\<open>bytes.hex()\<close>, the \<open>hexdigest()\<close> of a digest.\<close>

definition hexdigest :: "bytes \<Rightarrow> string" where
  "hexdigest bs = concat (map (\<lambda>b. [hex_lower (unat b div 16), hex_lower (unat b mod 16)]) bs)"

section \<open>Dates, numbers and parsed URLs\<close>

definition digit_char :: "nat \<Rightarrow> char" where
  "digit_char n = ''0123456789'' ! (n mod 10)"

fun str_nat :: "nat \<Rightarrow> string" where
  "str_nat n = (if n < 10 then [digit_char n] else str_nat (n div 10) @ [digit_char n])"

declare str_nat.simps [simp del]

text \<open>\<open>str(i)\<close> for an \<open>int\<close>.\<close>

definition str_int :: "int \<Rightarrow> string" where
  "str_int i = (if i < 0 then ''-'' @ str_nat (nat (- i)) else str_nat (nat i))"

definition zfill :: "nat \<Rightarrow> string \<Rightarrow> string" where
  "zfill w s = replicate (w - length s) CHR ''0'' @ s"

text \<open>
  A \<open>datetime\<close> by the fields that \<open>strftime\<close> reads. \<open>%Y\<close> is written on four digits and
  \<open>%m\<close>, \<open>%d\<close>, \<open>%H\<close>, \<open>%M\<close>, \<open>%S\<close> on two, padded with zeros.
\<close>

record datetime =
  year :: nat
  month :: nat
  day :: nat
  hour :: nat
  minute :: nat
  second :: nat

text \<open>\<open>now.strftime("%Y%m%d")\<close>\<close>

definition strftime_date :: "datetime \<Rightarrow> string" where
  "strftime_date now =
     zfill 4 (str_nat (year now)) @ zfill 2 (str_nat (month now)) @ zfill 2 (str_nat (day now))"

text \<open>\<open>now.strftime("%Y%m%dT%H%M%SZ")\<close>\<close>

definition strftime_amz :: "datetime \<Rightarrow> string" where
  "strftime_amz now =
     strftime_date now @ ''T'' @ zfill 2 (str_nat (hour now)) @ zfill 2 (str_nat (minute now))
       @ zfill 2 (str_nat (second now)) @ ''Z''"

datatype error = ValueError

text \<open>The \<open>ParseResult\<close> of \<open>urllib.parse.urlparse\<close>.\<close>

record parse_result =
  scheme :: string
  netloc :: string
  path :: string
  params :: string
  query :: string
  fragment :: string

text \<open>
  \<open>urlparse\<close> itself belongs to the standard library. The signer takes it as a parameter
  \<open>urlparse :: string \<Rightarrow> error + parse_result\<close>, where \<open>Inl\<close> is the \<open>ValueError\<close> that
  \<open>urlparse\<close> raises on a URL it rejects; the theorems about the signer hold for every such
  function. \<open>urlparse_model\<close> below follows \<open>urlsplit\<close> and \<open>urlparse\<close> of CPython step by
  step for URLs whose network location is ASCII and has no bracketed host (the checks of
  a bracketed IPv6 host and of NFKC normalisation are left out), and is used where a
  concrete URL is parsed.
\<close>

definition scheme_chars :: string where
  "scheme_chars = ''abcdefghijklmnopqrstuvwxyzABCDEFGHIJKLMNOPQRSTUVWXYZ0123456789+-.''"

definition uses_params :: "string list" where
  "uses_params = ['''', ''ftp'', ''hdl'', ''prospero'', ''http'', ''imap'', ''https'', ''shttp'',
     ''rtsp'', ''rtspu'', ''sip'', ''sips'', ''mms'', ''sftp'', ''tel'']"

definition is_ascii_alpha :: "char \<Rightarrow> bool" where
  "is_ascii_alpha c = ((CHR ''a'' \<le> c \<and> c \<le> CHR ''z'') \<or> (CHR ''A'' \<le> c \<and> c \<le> CHR ''Z''))"

text \<open>\<open>s.split(c, 1)\<close> when \<open>c\<close> occurs in \<open>s\<close>, and \<open>(s, "")\<close> otherwise.\<close>

definition split_first :: "char \<Rightarrow> string \<Rightarrow> string \<times> string" where
  "split_first c s = (takeWhile (\<lambda>x. x \<noteq> c) s, drop 1 (dropWhile (\<lambda>x. x \<noteq> c) s))"

definition splitparams :: "string \<Rightarrow> string \<times> string" where
  "splitparams url =
     (if CHR ''/'' \<in> set url then
        (let last_seg = rev (takeWhile (\<lambda>x. x \<noteq> CHR ''/'') (rev url));
             head = take (length url - length last_seg) url
         in if CHR '';'' \<in> set last_seg
            then (head @ fst (split_first CHR '';'' last_seg), snd (split_first CHR '';'' last_seg))
            else (url, ''''))
      else split_first CHR '';'' url)"

definition urlparse_model :: "string \<Rightarrow> error + parse_result" where
  "urlparse_model url0 =
     (let url1 = dropWhile (\<lambda>c. c \<le> CHR 0x20) url0;
          url2 = filter (\<lambda>c. c \<notin> set [CHR 0x09, CHR 0x0D, CHR 0x0A]) url1;
          pre = takeWhile (\<lambda>c. c \<noteq> CHR '':'') url2;
          has_scheme = (CHR '':'' \<in> set url2 \<and> pre \<noteq> [] \<and> is_ascii_alpha (hd pre)
                          \<and> (\<forall>c \<in> set pre. c \<in> set scheme_chars));
          scheme = (if has_scheme then lower pre else '''');
          url3 = (if has_scheme then drop (length pre + 1) url2 else url2);
          has_netloc = (take 2 url3 = ''//'');
          netloc = (if has_netloc
                    then takeWhile (\<lambda>c. c \<notin> set ''/?#'') (drop 2 url3) else '''');
          url4 = (if has_netloc then drop (2 + length netloc) url3 else url3);
          (url5, fragment) = split_first CHR ''#'' url4;
          (url6, query) = split_first CHR ''?'' url5;
          (url7, params) = (if scheme \<in> set uses_params \<and> CHR '';'' \<in> set url6
                            then splitparams url6 else (url6, ''''))
      in if (CHR ''['' \<in> set netloc \<and> CHR '']'' \<notin> set netloc)
            \<or> (CHR '']'' \<in> set netloc \<and> CHR ''['' \<notin> set netloc)
         then Inl ValueError
         else Inr \<lparr>scheme = scheme, netloc = netloc, path = url7, params = params,
                    query = query, fragment = fragment\<rparr>)"

section \<open>The signer \<open>AWSV4Auth\<close>\<close>

record awsv4auth =
  access_key :: string
  secret_key :: string
  region :: string

definition ALGORITHM :: string where
  "ALGORITHM = ''AWS4-HMAC-SHA256''"

definition SERVICE :: string where
  "SERVICE = ''s3''"

definition sign :: "bytes \<Rightarrow> string \<Rightarrow> bytes" where
  "sign key msg = hmac_sha256 key (encode_utf8 msg)"

definition get_signature_key :: "awsv4auth \<Rightarrow> string \<Rightarrow> bytes" where
  "get_signature_key self date_stamp =
     (let k_date = sign (encode_utf8 (''AWS4'' @ secret_key self)) date_stamp;
          k_region = sign k_date (region self);
          k_service = sign k_region SERVICE;
          k_signing = sign k_service ''aws4_request''
      in k_signing)"

definition sha256_hash :: "bytes \<Rightarrow> string" where
  "sha256_hash data = hexdigest (sha256 data)"

text \<open>
  The caller's \<open>headers\<close> argument is a reference to a mutable \<open>dict\<close>. The heap is the list
  of the dicts allocated so far and a reference is an index into it: \<open>dict(d)\<close> allocates a
  copy at the next free index, \<open>d[k] = v\<close> updates the dict stored at \<open>d\<close>.
\<close>

type_synonym heap = "pydict list"

definition dict_copy :: "heap \<Rightarrow> nat \<Rightarrow> nat \<times> heap" where
  "dict_copy h r = (length h, h @ [h ! r])"

definition setitem :: "heap \<Rightarrow> nat \<Rightarrow> string \<Rightarrow> string \<Rightarrow> heap" where
  "setitem h r k v = h[r := dict_set (h ! r) k v]"

text \<open>
  \<open>sign_request\<close>: \<open>clock\<close> is the value that \<open>datetime.now(timezone.utc)\<close> returns,
  \<open>headers\<close> the reference passed by the caller, \<open>h\<close> the heap at the call. The result is
  the error raised, or the reference returned and the heap at the return.
\<close>

definition sign_request ::
  "(string \<Rightarrow> error + parse_result) \<Rightarrow> awsv4auth \<Rightarrow> datetime \<Rightarrow> string \<Rightarrow> string \<Rightarrow> nat
     \<Rightarrow> bytes \<Rightarrow> pydict option \<Rightarrow> heap \<Rightarrow> error + (nat \<times> heap)" where
  "sign_request urlparse self clock method url headers body query_params h =
     (let query_params = (case query_params of None \<Rightarrow> [] | Some q \<Rightarrow> q)
      in case urlparse url of
           Inl e \<Rightarrow> Inl e
         | Inr parsed \<Rightarrow>
            (let path = (if path parsed = [] then ''/'' else path parsed);
                 now = clock;
                 amz_date = strftime_amz now;
                 date_stamp = strftime_date now;
                 (headers, h) = dict_copy h headers;
                 h = setitem h headers ''x-amz-date'' amz_date;
                 h = setitem h headers ''x-amz-content-sha256'' (sha256_hash body);
                 canonical_uri = get_canonical_uri path;
                 canonical_query_string = get_canonical_query_string query_params;
                 (canonical_headers, signed_headers) = get_canonical_headers (h ! headers);
                 payload_hash = sha256_hash body;
                 canonical_request = str_join NL
                   [upper method, canonical_uri, canonical_query_string, canonical_headers,
                    signed_headers, payload_hash];
                 credential_scope =
                   date_stamp @ ''/'' @ region self @ ''/'' @ SERVICE @ ''/aws4_request'';
                 string_to_sign = str_join NL
                   [ALGORITHM, amz_date, credential_scope,
                    sha256_hash (encode_utf8 canonical_request)];
                 signing_key = get_signature_key self date_stamp;
                 signature = hexdigest (hmac_sha256 signing_key (encode_utf8 string_to_sign));
                 authorization =
                   ALGORITHM @ '' '' @ ''Credential='' @ access_key self @ ''/''
                     @ credential_scope @ '', '' @ ''SignedHeaders='' @ signed_headers @ '', ''
                     @ ''Signature='' @ signature;
                 h = setitem h headers ''Authorization'' authorization
             in Inr (headers, h)))"

text \<open>
  \<open>presign_url\<close>: \<open>clock\<close> is what \<open>datetime.now(timezone.utc)\<close> would return; it is read
  only when \<open>request_date\<close> is \<open>None\<close>. \<open>presign_params\<close> is a dict local to the call.
\<close>

definition presign_url ::
  "(string \<Rightarrow> error + parse_result) \<Rightarrow> awsv4auth \<Rightarrow> datetime \<Rightarrow> string \<Rightarrow> string \<Rightarrow> int
     \<Rightarrow> pydict option \<Rightarrow> datetime option \<Rightarrow> error + string" where
  "presign_url urlparse self clock method url expires_in query_params request_date =
     (let query_params = (case query_params of None \<Rightarrow> [] | Some q \<Rightarrow> q)
      in case urlparse url of
           Inl e \<Rightarrow> Inl e
         | Inr parsed \<Rightarrow>
            (let path = (if path parsed = [] then ''/'' else path parsed);
                 host = netloc parsed;
                 now = (case request_date of Some d \<Rightarrow> d | None \<Rightarrow> clock);
                 amz_date = strftime_amz now;
                 date_stamp = strftime_date now;
                 credential_scope =
                   date_stamp @ ''/'' @ region self @ ''/'' @ SERVICE @ ''/aws4_request'';
                 presign_params = dict_update
                   [(''X-Amz-Algorithm'', ALGORITHM),
                    (''X-Amz-Credential'', access_key self @ ''/'' @ credential_scope),
                    (''X-Amz-Date'', amz_date),
                    (''X-Amz-Expires'', str_int expires_in),
                    (''X-Amz-SignedHeaders'', ''host'')] query_params;
                 canonical_uri = get_canonical_uri path;
                 canonical_query_string = get_canonical_query_string presign_params;
                 canonical_headers = ''host:'' @ host @ NL;
                 signed_headers = ''host'';
                 payload_hash = ''UNSIGNED-PAYLOAD'';
                 canonical_request = str_join NL
                   [upper method, canonical_uri, canonical_query_string, canonical_headers,
                    signed_headers, payload_hash];
                 string_to_sign = str_join NL
                   [ALGORITHM, amz_date, credential_scope,
                    sha256_hash (encode_utf8 canonical_request)];
                 signing_key = get_signature_key self date_stamp;
                 signature = hexdigest (hmac_sha256 signing_key (encode_utf8 string_to_sign));
                 presign_params = dict_set presign_params ''X-Amz-Signature'' signature;
                 query_string = urlencode presign_params ''-_.~''
             in Inr (scheme parsed @ ''://'' @ host @ path @ ''?'' @ query_string)))"

section \<open>Reading a query string back: \<open>urllib.parse.unquote\<close> and \<open>parse_qsl\<close>\<close>

definition is_hex :: "char \<Rightarrow> bool" where
  "is_hex c = (c \<in> set ''0123456789ABCDEFabcdef'')"

definition hex_val :: "char \<Rightarrow> nat" where
  "hex_val c =
     (if CHR ''0'' \<le> c \<and> c \<le> CHR ''9'' then of_char c - 48
      else if CHR ''A'' \<le> c \<and> c \<le> CHR ''F'' then of_char c - 55
      else of_char c - 87)"

text \<open>
  \<open>unquote\<close> on an ASCII string whose decoded bytes are valid UTF-8: a \<open>%\<close> followed by two
  hexadecimal digits is the byte they denote, every other character is itself.
\<close>

fun unquote :: "string \<Rightarrow> string" where
  "unquote (c # a # b # s) =
     (if c = CHR ''%'' \<and> is_hex a \<and> is_hex b
      then char_of (16 * hex_val a + hex_val b) # unquote s
      else c # unquote (a # b # s))"
| "unquote s = s"

definition plus_to_space :: "string \<Rightarrow> string" where
  "plus_to_space s = map (\<lambda>c. if c = CHR ''+'' then CHR '' '' else c) s"

text \<open>
  \<open>parse_qsl(qs, keep_blank_values)\<close> with \<open>strict_parsing=False\<close> and the separator \<open>&\<close>:
  the pairs in the order of the query string. \<open>parse_qs\<close> groups the same pairs by name, so
  a name occurs twice in \<open>parse_qsl\<close> exactly when its list in \<open>parse_qs\<close> has two values.
\<close>

definition parse_pair :: "bool \<Rightarrow> string \<Rightarrow> (string \<times> string) list" where
  "parse_pair keep_blank_values name_value =
     (if name_value = [] then []
      else if CHR ''='' \<notin> set name_value \<and> \<not> keep_blank_values then []
      else (let (n, v) = split_first CHR ''='' name_value
            in if v \<noteq> [] \<or> keep_blank_values
               then [(unquote (plus_to_space n), unquote (plus_to_space v))] else []))"

definition parse_qsl :: "string \<Rightarrow> bool \<Rightarrow> (string \<times> string) list" where
  "parse_qsl qs keep_blank_values =
     concat (map (parse_pair keep_blank_values) (split_on CHR ''&'' qs))"

text \<open>The text of a URL after its first \<open>?\<close>.\<close>

definition url_query :: "string \<Rightarrow> string" where
  "url_query u = snd (split_first CHR ''?'' u)"

section \<open>The specification's definitions\<close>

text \<open>
  Section 4.1, canonical query string: sort the entries by key, percent-encode keys and
  values with \<open>-_.~\<close> safe and the space as \<open>%20\<close>, join \<open>key=value\<close> with \<open>&\<close>.
\<close>

definition spec_unreserved :: string where
  "spec_unreserved = ''ABCDEFGHIJKLMNOPQRSTUVWXYZabcdefghijklmnopqrstuvwxyz0123456789-_.~''"

definition spec_percent_encode :: "string \<Rightarrow> string" where
  "spec_percent_encode s =
     concat (map (\<lambda>c. if c \<in> set spec_unreserved then [c] else percent_byte c) s)"

definition spec_canonical_query_string :: "pydict \<Rightarrow> string" where
  "spec_canonical_query_string q =
     str_join ''&''
       (map (\<lambda>(k, v). spec_percent_encode k @ ''='' @ spec_percent_encode v) (sort_key fst q))"

text \<open>
  Section 4.1, canonical headers: the names are the lower-cased header names in sorted
  order, each once; the value of a name is the stripped value of the header stored last
  under that name; the block is the concatenation of the lines \<open>name:value\n\<close>.
\<close>

definition spec_header_names :: "pydict \<Rightarrow> string list" where
  "spec_header_names headers = sorted_list_of_set ((\<lambda>(k, v). lower k) ` set headers)"

definition spec_header_value :: "pydict \<Rightarrow> string \<Rightarrow> string" where
  "spec_header_value headers n = strip (snd (last (filter (\<lambda>(k, v). lower k = n) headers)))"

definition spec_canonical_headers :: "pydict \<Rightarrow> string" where
  "spec_canonical_headers headers =
     concat (map (\<lambda>n. n @ '':'' @ spec_header_value headers n @ NL) (spec_header_names headers))"

definition spec_signed_headers :: "pydict \<Rightarrow> string" where
  "spec_signed_headers headers = str_join '';'' (spec_header_names headers)"

text \<open>Section 4.2, \<open>deriveSigningKey\<close>: four HMAC-SHA256 applications.\<close>

definition deriveSigningKey :: "string \<Rightarrow> string \<Rightarrow> string \<Rightarrow> string \<Rightarrow> bytes" where
  "deriveSigningKey secretKey dateStamp region' service =
     (let K1 = hmac_sha256 (encode_utf8 (''AWS4'' @ secretKey)) (encode_utf8 dateStamp);
          K2 = hmac_sha256 K1 (encode_utf8 region');
          K3 = hmac_sha256 K2 (encode_utf8 service);
          K4 = hmac_sha256 K3 (encode_utf8 ''aws4_request'')
      in K4)"

text \<open>
  The values that both entry points compute first: \<open>query_params or {}\<close> for an absent
  mapping, \<open>parsed.path or "/"\<close>, and the signing time (\<open>request_date\<close> when it is given, the
  clock otherwise).
\<close>

definition params_or_empty :: "pydict option \<Rightarrow> pydict" where
  "params_or_empty query_params = (case query_params of None \<Rightarrow> [] | Some q \<Rightarrow> q)"

definition path_or_root :: "parse_result \<Rightarrow> string" where
  "path_or_root parsed = (if path parsed = [] then ''/'' else path parsed)"

definition signing_time :: "datetime option \<Rightarrow> datetime \<Rightarrow> datetime" where
  "signing_time request_date clock = (case request_date of Some d \<Rightarrow> d | None \<Rightarrow> clock)"

text \<open>
  Section 4.3, \<open>signHeaders\<close>, as a function of the values it reads: the header set with
  \<open>x-amz-date\<close> and \<open>x-amz-content-sha256\<close> injected, and the \<open>Authorization\<close> value built
  from the canonical request over that header set.
\<close>

definition injected_headers :: "datetime \<Rightarrow> pydict \<Rightarrow> bytes \<Rightarrow> pydict" where
  "injected_headers now headers body =
     dict_set (dict_set headers ''x-amz-date'' (strftime_amz now))
       ''x-amz-content-sha256'' (sha256_hash body)"

definition credential_scope_of :: "awsv4auth \<Rightarrow> datetime \<Rightarrow> string" where
  "credential_scope_of self now =
     strftime_date now @ ''/'' @ region self @ ''/'' @ SERVICE @ ''/aws4_request''"

definition request_signature ::
  "awsv4auth \<Rightarrow> datetime \<Rightarrow> string \<Rightarrow> string \<Rightarrow> pydict \<Rightarrow> string \<times> string \<Rightarrow> string \<Rightarrow> string" where
  "request_signature self now method path' query_params hdrs payload_hash =
     hexdigest (hmac_sha256 (get_signature_key self (strftime_date now))
       (encode_utf8 (str_join NL
          [ALGORITHM, strftime_amz now, credential_scope_of self now,
           sha256_hash (encode_utf8 (str_join NL
             [upper method, get_canonical_uri path', get_canonical_query_string query_params,
              fst hdrs, snd hdrs, payload_hash]))])))"

definition signHeaders ::
  "awsv4auth \<Rightarrow> datetime \<Rightarrow> string \<Rightarrow> parse_result \<Rightarrow> pydict \<Rightarrow> bytes \<Rightarrow> pydict \<Rightarrow> pydict" where
  "signHeaders self now method parsed headers body queryParams =
     (let headers' = injected_headers now headers body;
          hdrs = get_canonical_headers headers'
      in dict_set headers' ''Authorization''
           (ALGORITHM @ '' Credential='' @ access_key self @ ''/'' @ credential_scope_of self now
              @ '', SignedHeaders='' @ snd hdrs @ '', Signature=''
              @ request_signature self now method (path_or_root parsed) queryParams hdrs
                  (sha256_hash body)))"

text \<open>The dict that the reference returned by \<open>sign_request\<close> points to.\<close>

definition returned_headers :: "error + (nat \<times> heap) \<Rightarrow> error + pydict" where
  "returned_headers res = (case res of Inl e \<Rightarrow> Inl e | Inr (r, h) \<Rightarrow> Inr (h ! r))"

text \<open>
  Section 4.3, \<open>presignURL\<close>: the presign query set, merged with the caller's extra
  parameters, before \<open>X-Amz-Signature\<close> is stored.
\<close>

definition presign_params_of :: "awsv4auth \<Rightarrow> datetime \<Rightarrow> int \<Rightarrow> pydict \<Rightarrow> pydict" where
  "presign_params_of self now expires_in query_params =
     dict_update
       [(''X-Amz-Algorithm'', ALGORITHM),
        (''X-Amz-Credential'', access_key self @ ''/'' @ credential_scope_of self now),
        (''X-Amz-Date'', strftime_amz now),
        (''X-Amz-Expires'', str_int expires_in),
        (''X-Amz-SignedHeaders'', ''host'')] query_params"

definition presign_signature ::
  "awsv4auth \<Rightarrow> datetime \<Rightarrow> string \<Rightarrow> parse_result \<Rightarrow> int \<Rightarrow> pydict \<Rightarrow> string" where
  "presign_signature self now method parsed expires_in query_params =
     request_signature self now method (path_or_root parsed)
       (presign_params_of self now expires_in query_params)
       (''host:'' @ netloc parsed @ NL, ''host'') ''UNSIGNED-PAYLOAD''"

text \<open>The credentials, the date and the URL of the examples of section 8.\<close>

definition test_auth :: awsv4auth where
  "test_auth = \<lparr>access_key = ''test-access'', secret_key = ''test-secret'', region = ''us-east-1''\<rparr>"

definition test_date :: datetime where
  "test_date = \<lparr>year = 2024, month = 6, day = 15, hour = 12, minute = 0, second = 0\<rparr>"

definition test_url :: string where
  "test_url = ''http://localhost:9000/bucket/key''"

section \<open>Dictionaries and sorting\<close>

lemma keys_dict_set:
  "map fst (dict_set d k v) = (if k \<in> fst ` set d then map fst d else map fst d @ [k])"
  by (induction d) (force split: if_splits)+

lemma set_dict_set_keys: "fst ` set (dict_set d k v) = insert k (fst ` set d)"
proof -
  have "set (map fst (dict_set d k v)) = insert k (set (map fst d))"
    unfolding keys_dict_set by auto
  then show ?thesis by simp
qed

lemma distinct_dict_set: "distinct (map fst d) \<Longrightarrow> distinct (map fst (dict_set d k v))"
  by (simp add: keys_dict_set)

lemma map_of_dict_set: "map_of (dict_set d k v) = (map_of d)(k \<mapsto> v)"
  by (induction d) (auto simp: fun_eq_iff)

lemma distinct_dict_update:
  "distinct (map fst d) \<Longrightarrow> distinct (map fst (dict_update d items))"
  unfolding dict_update_def
  by (induction items arbitrary: d) (auto simp: distinct_dict_set)

lemma keys_dict_update: "fst ` set (dict_update d items) = fst ` set d \<union> fst ` set items"
  unfolding dict_update_def
proof (induction items arbitrary: d)
  case Nil
  then show ?case by simp
next
  case (Cons a items)
  obtain k v where a: "a = (k, v)" by (cases a)
  show ?case unfolding a by (simp add: Cons.IH set_dict_set_keys)
qed

lemma map_of_dict_update: "map_of (dict_update d items) = map_of d ++ map_of (rev items)"
  unfolding dict_update_def
proof (induction items arbitrary: d)
  case Nil
  then show ?case by simp
next
  case (Cons a items)
  obtain k v where a: "a = (k, v)" by (cases a)
  show ?case
    by (simp add: a Cons.IH map_of_dict_set fun_eq_iff map_add_def split: option.splits)
qed

lemma sorted_pairs_of_keys:
  "sorted ks \<Longrightarrow> distinct ks \<Longrightarrow> sorted (map (\<lambda>k. (k, f k)) ks)"
  by (induction ks) (auto simp: less_eq_prod_def less_le)

lemma sort_alist:
  assumes "distinct (map fst al)"
  shows "sort al = map (\<lambda>k. (k, the (map_of al k))) (sorted_list_of_set (fst ` set al))"
proof (rule sorted_distinct_set_unique)
  show "sorted (sort al)" by simp
  show "distinct (sort al)" using assms by (simp add: distinct_map)
  let ?ks = "sorted_list_of_set (fst ` set al)"
  show "sorted (map (\<lambda>k. (k, the (map_of al k))) ?ks)"
    by (rule sorted_pairs_of_keys) simp_all
  show "distinct (map (\<lambda>k. (k, the (map_of al k))) ?ks)"
    by (simp add: distinct_map inj_on_def)
  show "set (sort al) = set (map (\<lambda>k. (k, the (map_of al k))) ?ks)"
  proof -
    have "\<And>k v. (k, v) \<in> set al \<Longrightarrow> the (map_of al k) = v"
      using assms by simp
    then show ?thesis by (force simp: image_iff)
  qed
qed

section \<open>Canonical headers, digests and the two entry points\<close>

lemma map_of_rev_last:
  assumes "n \<in> (\<lambda>(k, v). lower k) ` set hs"
  shows "map_of (rev (map (\<lambda>(k, v). (lower k, strip v)) hs)) n
         = Some (strip (snd (last (filter (\<lambda>(k, v). lower k = n) hs))))"
  using assms
proof (induction hs rule: rev_induct)
  case Nil
  then show ?case by simp
next
  case (snoc x xs)
  obtain k v where x: "x = (k, v)" by (cases x)
  show ?case
  proof (cases "lower k = n")
    case True
    then show ?thesis by (simp add: x)
  next
    case False
    with snoc.prems have "n \<in> (\<lambda>(k, v). lower k) ` set xs" by (auto simp: x)
    with snoc.IH False show ?thesis by (simp add: x)
  qed
qed

lemma sorted_normalized:
  "py_sorted (dict_update [] (map (\<lambda>(k, v). (lower k, strip v)) hs))
   = map (\<lambda>n. (n, spec_header_value hs n)) (spec_header_names hs)"
proof -
  let ?f = "\<lambda>(k, v). (lower k, strip v)"
  let ?N = "dict_update [] (map ?f hs)"
  have keys: "fst ` set ?N = (\<lambda>(k, v). lower k) ` set hs"
    by (force simp: keys_dict_update image_iff)
  have dist: "distinct (map fst ?N)"
    by (rule distinct_dict_update) simp
  have val: "the (map_of ?N n) = spec_header_value hs n"
    if "n \<in> set (spec_header_names hs)" for n
  proof -
    from that have "n \<in> (\<lambda>(k, v). lower k) ` set hs"
      by (simp add: spec_header_names_def)
    then show ?thesis
      by (simp add: map_of_dict_update map_of_rev_last spec_header_value_def)
  qed
  have "py_sorted ?N = map (\<lambda>k. (k, the (map_of ?N k))) (spec_header_names hs)"
    unfolding py_sorted_def spec_header_names_def keys [symmetric] by (rule sort_alist [OF dist])
  also have "\<dots> = map (\<lambda>n. (n, spec_header_value hs n)) (spec_header_names hs)"
    using val by simp
  finally show ?thesis .
qed

lemma get_canonical_headers_spec:
  "get_canonical_headers hs = (spec_canonical_headers hs, spec_signed_headers hs)"
  by (simp add: get_canonical_headers_def Let_def sorted_normalized spec_canonical_headers_def
      spec_signed_headers_def comp_def)

lemma length_state_bytes: "length (state_bytes s) = 32"
  by (cases s rule: state_bytes.cases) (simp add: be32_def)

lemma length_sha256: "length (sha256 msg) = 32"
  by (simp add: sha256_def Let_def length_state_bytes)

lemma length_hmac_sha256: "length (hmac_sha256 key msg) = 32"
  by (simp add: hmac_sha256_def Let_def length_sha256)

lemma length_hexdigest: "length (hexdigest bs) = 2 * length bs"
  by (induction bs) (simp_all add: hexdigest_def)

lemma hex_lower_mem: "hex_lower n \<in> set ''0123456789abcdef''"
proof -
  have "n mod 16 < length ''0123456789abcdef''" by simp
  then show ?thesis unfolding hex_lower_def by (rule nth_mem)
qed

lemma set_hexdigest: "set (hexdigest bs) \<subseteq> set ''0123456789abcdef''"
  using hex_lower_mem by (auto simp: hexdigest_def)

lemma sign_request_refines:
  "sign_request urlparse self clock method url r body query_params h =
     (case urlparse url of
        Inl e \<Rightarrow> Inl e
      | Inr parsed \<Rightarrow>
          Inr (length h, h @ [signHeaders self clock method parsed (h ! r) body
                 (params_or_empty query_params)]))"
  by (simp add: sign_request_def signHeaders_def injected_headers_def request_signature_def
      credential_scope_of_def dict_copy_def setitem_def params_or_empty_def path_or_root_def
      Let_def case_prod_beta split: sum.splits)

lemma presign_url_eq:
  "presign_url urlparse self clock method url expires_in query_params request_date =
     (case urlparse url of
        Inl e \<Rightarrow> Inl e
      | Inr parsed \<Rightarrow>
          Inr (scheme parsed @ ''://'' @ netloc parsed @ path_or_root parsed @ ''?''
               @ urlencode
                   (dict_set
                      (presign_params_of self (signing_time request_date clock) expires_in
                         (params_or_empty query_params))
                      ''X-Amz-Signature''
                      (presign_signature self (signing_time request_date clock) method parsed
                         expires_in (params_or_empty query_params)))
                   ''-_.~''))"
  by (simp add: presign_url_def presign_params_of_def presign_signature_def
      request_signature_def credential_scope_of_def params_or_empty_def path_or_root_def
      signing_time_def Let_def split: sum.splits)

section \<open>Percent-encoding and its inverse\<close>

lemma hex_upper_table:
  "\<forall>d \<in> set [0..<16]. is_hex (hex_upper d) \<and> hex_val (hex_upper d) = d
      \<and> hex_upper d \<in> set always_safe"
  by code_simp

lemma hex_upper_props:
  "is_hex (hex_upper n)" "hex_val (hex_upper n) = n mod 16" "hex_upper n \<in> set always_safe"
proof -
  have eq: "hex_upper n = hex_upper (n mod 16)" by (simp add: hex_upper_def)
  have mem: "n mod 16 \<in> set [0..<16]" by simp
  from hex_upper_table mem
  have "is_hex (hex_upper (n mod 16)) \<and> hex_val (hex_upper (n mod 16)) = n mod 16
      \<and> hex_upper (n mod 16) \<in> set always_safe"
    by blast
  then show "is_hex (hex_upper n)" "hex_val (hex_upper n) = n mod 16"
    "hex_upper n \<in> set always_safe"
    by (simp_all add: eq [symmetric])
qed

lemma always_safe_not_special:
  "c \<in> set always_safe \<Longrightarrow> c \<noteq> CHR ''%'' \<and> c \<noteq> CHR ''+'' \<and> c \<noteq> CHR ''&''
     \<and> c \<noteq> CHR ''='' \<and> c \<noteq> CHR '' ''"
  by (auto simp: always_safe_def)

lemma unquote_other: "c \<noteq> CHR ''%'' \<Longrightarrow> unquote (c # xs) = c # unquote xs"
  by (cases "c # xs" rule: unquote.cases) auto

lemma unquote_percent_byte: "unquote (percent_byte c @ s) = c # unquote s"
proof -
  have "char_of (16 * ((of_char c :: nat) div 16 mod 16) + (of_char c :: nat) mod 16) = c"
  proof -
    have "(of_char c :: nat) < 256" by simp
    then have "(of_char c :: nat) div 16 < 16" by arith
    then have "(of_char c :: nat) div 16 mod 16 = of_char c div 16" by simp
    then show ?thesis by simp
  qed
  then show ?thesis
    by (simp add: percent_byte_def hex_upper_props)
qed

lemma quote_plus_chars:
  "quote_plus s ''-_.~'' =
     concat (map (\<lambda>c. if c = CHR '' '' then ''+'' else if c \<in> set always_safe then [c]
                       else percent_byte c) s)"
proof (cases "CHR '' '' \<in> set s")
  case False
  have "quoter ''-_.~'' c = (if c = CHR '' '' then ''+'' else if c \<in> set always_safe then [c]
                       else percent_byte c)" if "c \<in> set s" for c
    using that False by (auto simp: quoter_def always_safe_def)
  then show ?thesis using False by (simp add: quote_plus_def quote_def cong: map_cong)
next
  case True
  have "map (\<lambda>c. if c = CHR '' '' then CHR ''+'' else c) (quoter (''-_.~'' @ '' '') c)
        = (if c = CHR '' '' then ''+'' else if c \<in> set always_safe then [c]
                       else percent_byte c)" for c
    using hex_upper_props(3) always_safe_not_special
    by (auto simp: quoter_def percent_byte_def always_safe_def)
  then show ?thesis using True
    by (simp add: quote_plus_def quote_def map_concat comp_def)
qed

lemma unquote_quote_plus: "unquote (plus_to_space (quote_plus s ''-_.~'')) = s"
proof -
  have step: "unquote (plus_to_space
      ((if c = CHR '' '' then ''+'' else if c \<in> set always_safe then [c] else percent_byte c) @ t))
      = c # unquote (plus_to_space t)" for c t
  proof -
    consider "c = CHR '' ''" | "c \<noteq> CHR '' ''" "c \<in> set always_safe"
      | "c \<noteq> CHR '' ''" "c \<notin> set always_safe" by blast
    then show ?thesis
    proof cases
      case 1
      then show ?thesis by (simp add: plus_to_space_def unquote_other)
    next
      case 2
      then show ?thesis
        using always_safe_not_special [of c] by (simp add: plus_to_space_def unquote_other)
    next
      case 3
      have "plus_to_space (percent_byte c @ t) = percent_byte c @ plus_to_space t"
        using always_safe_not_special hex_upper_props(3)
        by (simp add: plus_to_space_def percent_byte_def)
      then show ?thesis using 3 by (simp add: unquote_percent_byte)
    qed
  qed
  have "unquote (plus_to_space (concat (map (\<lambda>c. if c = CHR '' '' then ''+''
          else if c \<in> set always_safe then [c] else percent_byte c) s))) = s"
  proof (induction s)
    case Nil
    then show ?case by (simp add: plus_to_space_def)
  next
    case (Cons c s)
    then show ?case using step by simp
  qed
  then show ?thesis by (simp add: quote_plus_chars)
qed

lemma set_quote_plus:
  "set (quote_plus s ''-_.~'') \<subseteq> set always_safe \<union> {CHR ''%'', CHR ''+''}"
  using hex_upper_props(3) by (auto simp: quote_plus_chars percent_byte_def split: if_splits)

lemma quote_plus_no_sep:
  "CHR ''&'' \<notin> set (quote_plus s ''-_.~'')" "CHR ''='' \<notin> set (quote_plus s ''-_.~'')"
  using set_quote_plus [of s] always_safe_not_special by blast+

lemma quote_plus_Nil_iff: "quote_plus s ''-_.~'' = [] \<longleftrightarrow> s = []"
  by (cases s) (auto simp: quote_plus_chars percent_byte_def)

lemma split_on_none: "c \<notin> set s \<Longrightarrow> split_on c s = [s]"
  by (induction s) auto

lemma split_on_append: "c \<notin> set s \<Longrightarrow> split_on c (s @ c # t) = s # split_on c t"
  by (induction s) auto

lemma split_on_join:
  "xs \<noteq> [] \<Longrightarrow> \<forall>x \<in> set xs. c \<notin> set x \<Longrightarrow> split_on c (str_join [c] xs) = xs"
proof (induction "[c]" xs rule: str_join.induct)
  case 1
  then show ?case by simp
next
  case (2 x)
  then show ?case by (simp add: split_on_none)
next
  case (3 x y ys)
  then show ?case by (simp add: split_on_append)
qed

lemma split_first_eq: "c \<notin> set a \<Longrightarrow> split_first c (a @ c # b) = (a, b)"
  by (induction a) (auto simp: split_first_def)

lemma parse_pair_urlencoded:
  "parse_pair kb (quote_plus k ''-_.~'' @ CHR ''='' # quote_plus v ''-_.~'')
   = (if v \<noteq> [] \<or> kb then [(k, v)] else [])"
  using split_first_eq [OF quote_plus_no_sep(2) [of k], of "quote_plus v ''-_.~''"]
  by (simp add: parse_pair_def unquote_quote_plus quote_plus_Nil_iff)

lemma parse_qsl_urlencode:
  "parse_qsl (urlencode d ''-_.~'') kb = filter (\<lambda>(k, v). v \<noteq> [] \<or> kb) d"
proof (cases "d = []")
  case True
  then show ?thesis by (simp add: parse_qsl_def urlencode_def parse_pair_def)
next
  case False
  let ?enc = "\<lambda>(k, v). quote_plus k ''-_.~'' @ ''='' @ quote_plus v ''-_.~''"
  have nosep: "\<forall>x \<in> set (map ?enc d). CHR ''&'' \<notin> set x"
    using quote_plus_no_sep(1) by auto
  have "split_on CHR ''&'' (urlencode d ''-_.~'') = map ?enc d"
    unfolding urlencode_def using False nosep by (intro split_on_join) simp_all
  moreover have "concat (map (parse_pair kb) (map ?enc xs)) = filter (\<lambda>(k, v). v \<noteq> [] \<or> kb) xs"
    for xs
    by (induction xs) (auto simp: parse_pair_urlencoded split: if_splits)
  ultimately show ?thesis by (simp add: parse_qsl_def)
qed

lemma keys_dict_update_distinct:
  "distinct (map fst items) \<Longrightarrow>
   map fst (dict_update d items) = map fst d @ filter (\<lambda>k. k \<notin> fst ` set d) (map fst items)"
proof (induction items arbitrary: d)
  case Nil
  then show ?case by (simp add: dict_update_def)
next
  case (Cons a items)
  obtain k v where a: "a = (k, v)" by (cases a)
  from Cons.prems have k: "k \<notin> fst ` set items" and d: "distinct (map fst items)"
    by (auto simp: a)
  have step: "dict_update d (a # items) = dict_update (dict_set d k v) items"
    by (simp add: dict_update_def a)
  have flt: "filter (\<lambda>x. x \<notin> insert k (fst ` set d)) (map fst items)
             = filter (\<lambda>x. x \<notin> fst ` set d) (map fst items)"
    using k by (intro filter_cong) auto
  show ?case
    unfolding step Cons.IH [OF d] set_dict_set_keys flt
    by (simp add: keys_dict_set a)
qed

lemma mem_dict_set:
  "(k, v) \<in> set (dict_set d k' v') \<Longrightarrow> (k, v) \<in> set d \<or> (k, v) = (k', v')"
  by (induction d) (auto split: if_splits)

lemma mem_dict_update:
  "(k, v) \<in> set (dict_update d items) \<Longrightarrow> (k, v) \<in> set d \<or> (k, v) \<in> set items"
  unfolding dict_update_def
proof (induction items arbitrary: d)
  case Nil
  then show ?case by simp
next
  case (Cons a items)
  obtain k' v' where a: "a = (k', v')" by (cases a)
  from Cons.prems have "(k, v) \<in> set (fold (\<lambda>(k, v) d'. dict_set d' k v) items (dict_set d k' v'))"
    by (simp add: a)
  from Cons.IH [OF this] have "(k, v) \<in> set (dict_set d k' v') \<or> (k, v) \<in> set items" .
  then have "(k, v) \<in> set d \<or> (k, v) = (k', v') \<or> (k, v) \<in> set items"
    using mem_dict_set [of k v d k' v'] by blast
  then show ?case unfolding a by simp
qed

lemma str_nat_nonempty: "str_nat n \<noteq> []"
  by (subst str_nat.simps) simp

lemma str_int_nonempty: "str_int i \<noteq> []"
  by (simp add: str_int_def str_nat_nonempty)

lemma length_request_signature:
  "length (request_signature self now method p q hdrs ph) = 64"
  by (simp add: request_signature_def length_hexdigest length_hmac_sha256)

lemma presign_params_values:
  assumes "(k, v) \<in> set (dict_set (presign_params_of self now e qp) ''X-Amz-Signature'' sg)"
    and "sg \<noteq> []" and "\<forall>(k, v) \<in> set qp. v \<noteq> []"
  shows "v \<noteq> []"
proof -
  from mem_dict_set [OF assms(1)]
  consider "(k, v) = (''X-Amz-Signature'', sg)" | "(k, v) \<in> set (presign_params_of self now e qp)"
    by blast
  then show ?thesis
  proof cases
    case 1
    with assms(2) show ?thesis by simp
  next
    case 2
    from mem_dict_update [OF 2 [unfolded presign_params_of_def]] assms(3)
    show ?thesis
      using str_int_nonempty [of e]
      by (auto simp: ALGORITHM_def strftime_amz_def)
  qed
qed

lemma presign_params_keys:
  "fst ` set (dict_set (presign_params_of self now e qp) ''X-Amz-Signature'' sg)
   = {''X-Amz-Algorithm'', ''X-Amz-Credential'', ''X-Amz-Date'', ''X-Amz-Expires'',
      ''X-Amz-SignedHeaders'', ''X-Amz-Signature''} \<union> fst ` set qp"
  by (auto simp: set_dict_set_keys presign_params_of_def keys_dict_update)

lemma presign_params_distinct:
  "distinct (map fst (dict_set (presign_params_of self now e qp) ''X-Amz-Signature'' sg))"
  by (intro distinct_dict_set, unfold presign_params_of_def, intro distinct_dict_update) simp

lemma presign_params_extra:
  assumes "distinct (map fst qp)" "(k, v) \<in> set qp" "k \<noteq> ''X-Amz-Signature''"
  shows "(k, v) \<in> set (dict_set (presign_params_of self now e qp) ''X-Amz-Signature'' sg)"
proof -
  from assms(1) have "distinct (map fst (rev qp))" by (simp add: rev_map [symmetric])
  with assms(2) have "map_of (rev qp) k = Some v" by (intro map_of_is_SomeI) simp_all
  with assms(3)
  have "map_of (dict_set (presign_params_of self now e qp) ''X-Amz-Signature'' sg) k = Some v"
    by (simp add: map_of_dict_set presign_params_of_def map_of_dict_update)
  then show ?thesis by (rule map_of_SomeD)
qed

section \<open>The examples\<close>

lemma urlparse_test_url:
  "urlparse_model test_url = Inr \<lparr>scheme = ''http'', netloc = ''localhost:9000'',
     path = ''/bucket/key'', params = [], query = [], fragment = []\<rparr>"
  by code_simp

lemma urlparse_bad_url: "urlparse_model ''http://[::1/x'' = Inl ValueError"
  by code_simp

lemma strftime_test_date:
  "strftime_amz test_date = ''20240615T120000Z''" "strftime_date test_date = ''20240615''"
  by code_simp+

lemma str_int_3600: "str_int 3600 = ''3600''"
  by code_simp

lemma lower_amz_names:
  "lower ''x-amz-date'' = ''x-amz-date''" "lower ''x-amz-content-sha256'' = ''x-amz-content-sha256''"
  by code_simp+

lemma sublist_str_join:
  "x \<in> set xs \<Longrightarrow> sublist x (str_join sep xs)"
proof (induction sep xs rule: str_join.induct)
  case (1 sep)
  then show ?case by simp
next
  case (2 sep y)
  then show ?case by simp
next
  case (3 sep y z zs)
  show ?case
  proof (cases "x = y")
    case True
    then show ?thesis by (simp add: sublist_append_rightI)
  next
    case False
    with 3 have "sublist x (str_join sep (z # zs))" by simp
    then have "sublist x ((y @ sep) @ str_join sep (z # zs))"
      by (simp only: sublist_append) simp
    then show ?thesis by simp
  qed
qed

lemma sublist_urlencode:
  assumes "(k, v) \<in> set d"
  shows "sublist (quote_plus k safe @ CHR ''='' # quote_plus v safe) (urlencode d safe)"
proof -
  have "quote_plus k safe @ CHR ''='' # quote_plus v safe
        \<in> set (map (\<lambda>(k, v). quote_plus k safe @ ''='' @ quote_plus v safe) d)"
    using assms by force
  then show ?thesis unfolding urlencode_def by (rule sublist_str_join)
qed

lemma quote_plus_safe_id:
  assumes "set s \<subseteq> set always_safe"
  shows "quote_plus s ''-_.~'' = s"
proof -
  have "concat (map (\<lambda>c. if c = CHR '' '' then ''+'' else if c \<in> set always_safe then [c]
                       else percent_byte c) s) = s"
    using assms always_safe_not_special by (induction s) auto
  then show ?thesis by (simp add: quote_plus_chars)
qed

lemma hex_chars_safe: "set ''0123456789abcdef'' \<subseteq> set always_safe"
  by (simp add: always_safe_def)

lemma request_signature_hex:
  "set (request_signature self now m p q hdrs ph) \<subseteq> set ''0123456789abcdef''"
  unfolding request_signature_def by (rule set_hexdigest)

lemma quote_plus_signature:
  "quote_plus (presign_signature self now m parsed e qp) ''-_.~''
   = presign_signature self now m parsed e qp"
  unfolding presign_signature_def
  by (rule quote_plus_safe_id) (use request_signature_hex hex_chars_safe in blast)

lemma sublist_append_last:
  assumes "sublist n (a @ b)" "n \<noteq> []" "last n \<notin> set b"
  shows "sublist n a"
proof -
  from assms(1) consider "sublist n a" | "sublist n b"
    | n1 n2 where "n = n1 @ n2" "suffix n1 a" "prefix n2 b"
    unfolding sublist_append by blast
  then show ?thesis
  proof cases
    case 1
    then show ?thesis .
  next
    case 2
    then have "set n \<subseteq> set b" by (rule set_mono_sublist)
    moreover have "last n \<in> set n" using assms(2) by simp
    ultimately show ?thesis using assms(3) by auto
  next
    case 3
    show ?thesis
    proof (cases "n2 = []")
      case True
      with 3 have "suffix n a" by simp
      then show ?thesis by (rule suffix_imp_sublist)
    next
      case False
      then have "last n = last n2" using 3(1) by simp
      moreover have "last n2 \<in> set n2" using False by simp
      moreover have "set n2 \<subseteq> set b" using 3(3) by (rule set_mono_prefix)
      ultimately show ?thesis using assms(3) by auto
    qed
  qed
qed

lemma presign_keys:
  assumes "distinct (map fst qp)"
  shows "map fst (dict_set (presign_params_of self now e qp) ''X-Amz-Signature'' sg)
    = [''X-Amz-Algorithm'', ''X-Amz-Credential'', ''X-Amz-Date'', ''X-Amz-Expires'',
       ''X-Amz-SignedHeaders'']
      @ filter (\<lambda>k. k \<notin> {''X-Amz-Algorithm'', ''X-Amz-Credential'', ''X-Amz-Date'',
                          ''X-Amz-Expires'', ''X-Amz-SignedHeaders''}) (map fst qp)
      @ (if ''X-Amz-Signature'' \<in> fst ` set qp then [] else [''X-Amz-Signature''])"
proof -
  define base where "base =
    [(''X-Amz-Algorithm'', ALGORITHM),
     (''X-Amz-Credential'', access_key self @ ''/'' @ credential_scope_of self now),
     (''X-Amz-Date'', strftime_amz now),
     (''X-Amz-Expires'', str_int e),
     (''X-Amz-SignedHeaders'', ''host'')]"
  let ?five = "[''X-Amz-Algorithm'', ''X-Amz-Credential'', ''X-Amz-Date'', ''X-Amz-Expires'',
       ''X-Amz-SignedHeaders'']"
  have kb: "map fst base = ?five" by (simp add: base_def)
  have sb: "fst ` set base = set ?five" unfolding kb [symmetric] by simp
  have k1: "map fst (dict_update base qp) = ?five @ filter (\<lambda>k. k \<notin> set ?five) (map fst qp)"
    using keys_dict_update_distinct [OF assms, of base] by (simp only: kb sb)
  have k2: "fst ` set (dict_update base qp) = set ?five \<union> fst ` set qp"
    by (simp only: keys_dict_update sb)
  have sig: "''X-Amz-Signature'' \<notin> set ?five" by simp
  have "map fst (dict_set (dict_update base qp) ''X-Amz-Signature'' sg)
        = ?five @ filter (\<lambda>k. k \<notin> set ?five) (map fst qp)
          @ (if ''X-Amz-Signature'' \<in> fst ` set qp then [] else [''X-Amz-Signature''])"
    unfolding keys_dict_set k1 k2 using sig by (simp only: Un_iff if_False) simp
  then show ?thesis unfolding presign_params_of_def base_def by simp
qed

lemma quote_plus_examples:
  "quote_plus ''X-Amz-Algorithm'' ''-_.~'' = ''X-Amz-Algorithm''"
  "quote_plus ''X-Amz-Credential'' ''-_.~'' = ''X-Amz-Credential''"
  "quote_plus ''X-Amz-Date'' ''-_.~'' = ''X-Amz-Date''"
  "quote_plus ''X-Amz-Expires'' ''-_.~'' = ''X-Amz-Expires''"
  "quote_plus ''X-Amz-SignedHeaders'' ''-_.~'' = ''X-Amz-SignedHeaders''"
  "quote_plus ''X-Amz-Signature'' ''-_.~'' = ''X-Amz-Signature''"
  "quote_plus ''AWS4-HMAC-SHA256'' ''-_.~'' = ''AWS4-HMAC-SHA256''"
  "quote_plus ''test-access/20240615/us-east-1/s3/aws4_request'' ''-_.~''
     = ''test-access%2F20240615%2Fus-east-1%2Fs3%2Faws4_request''"
  "quote_plus ''20240615T120000Z'' ''-_.~'' = ''20240615T120000Z''"
  "quote_plus ''3600'' ''-_.~'' = ''3600''"
  "quote_plus ''host'' ''-_.~'' = ''host''"
  "quote_plus ''x'' ''-_.~'' = ''x''"
  by code_simp+

lemma test_params:
  "presign_params_of test_auth test_date 3600 qp = dict_update
     [(''X-Amz-Algorithm'', ''AWS4-HMAC-SHA256''),
      (''X-Amz-Credential'', ''test-access/20240615/us-east-1/s3/aws4_request''),
      (''X-Amz-Date'', ''20240615T120000Z''),
      (''X-Amz-Expires'', ''3600''),
      (''X-Amz-SignedHeaders'', ''host'')] qp"
  by (simp add: presign_params_of_def test_auth_def credential_scope_of_def strftime_test_date
      str_int_3600 ALGORITHM_def SERVICE_def)

lemma presign_test_url:
  "presign_url urlparse_model test_auth clock m test_url 3600 None (Some test_date) =
     Inr (''http://localhost:9000/bucket/key?X-Amz-Algorithm=AWS4-HMAC-SHA256&X-Amz-Credential=test-access%2F20240615%2Fus-east-1%2Fs3%2Faws4_request&X-Amz-Date=20240615T120000Z&X-Amz-Expires=3600&X-Amz-SignedHeaders=host&X-Amz-Signature=''
          @ presign_signature test_auth test_date m
              \<lparr>scheme = ''http'', netloc = ''localhost:9000'', path = ''/bucket/key'',
                 params = [], query = [], fragment = []\<rparr> 3600 [])"
  by (simp add: presign_url_eq urlparse_test_url signing_time_def params_or_empty_def
      path_or_root_def test_params dict_update_def urlencode_def quote_plus_examples
      quote_plus_signature)

lemma presign_test_url_date_override:
  "presign_url urlparse_model test_auth clock m test_url 3600 (Some [(''X-Amz-Date'', ''x'')])
       (Some test_date) =
     Inr (''http://localhost:9000/bucket/key?X-Amz-Algorithm=AWS4-HMAC-SHA256&X-Amz-Credential=test-access%2F20240615%2Fus-east-1%2Fs3%2Faws4_request&X-Amz-Date=x&X-Amz-Expires=3600&X-Amz-SignedHeaders=host&X-Amz-Signature=''
          @ presign_signature test_auth test_date m
              \<lparr>scheme = ''http'', netloc = ''localhost:9000'', path = ''/bucket/key'',
                 params = [], query = [], fragment = []\<rparr> 3600 [(''X-Amz-Date'', ''x'')])"
  by (simp add: presign_url_eq urlparse_test_url signing_time_def params_or_empty_def
      path_or_root_def test_params dict_update_def urlencode_def quote_plus_examples
      quote_plus_signature)

lemma presign_signature_no_upper:
  "CHR ''t'' \<notin> set (presign_signature self now m parsed e qp)"
  "CHR ''Z'' \<notin> set (presign_signature self now m parsed e qp)"
  using request_signature_hex unfolding presign_signature_def by fastforce+

lemma not_sublist_append:
  "\<not> sublist n a \<Longrightarrow> n \<noteq> [] \<Longrightarrow> last n \<notin> set b \<Longrightarrow> \<not> sublist n (a @ b)"
  using sublist_append_last by blast

lemma presign_params_base_entry:
  assumes "(k, v) \<in> set
     [(''X-Amz-Algorithm'', ALGORITHM),
      (''X-Amz-Credential'', access_key self @ ''/'' @ credential_scope_of self now),
      (''X-Amz-Date'', strftime_amz now),
      (''X-Amz-Expires'', str_int e),
      (''X-Amz-SignedHeaders'', ''host'')]"
    and "k \<notin> fst ` set qp"
  shows "(k, v) \<in> set (dict_set (presign_params_of self now e qp) ''X-Amz-Signature'' sg)"
proof -
  let ?base = "[(''X-Amz-Algorithm'', ALGORITHM),
      (''X-Amz-Credential'', access_key self @ ''/'' @ credential_scope_of self now),
      (''X-Amz-Date'', strftime_amz now),
      (''X-Amz-Expires'', str_int e),
      (''X-Amz-SignedHeaders'', ''host'')]"
  have "distinct (map fst ?base)" by simp
  with assms(1) have base: "map_of ?base k = Some v" by (rule map_of_is_SomeI [rotated])
  from assms(1) have ne: "k \<noteq> ''X-Amz-Signature''" by auto
  from assms(2) have "map_of (rev qp) k = None" by (simp add: map_of_eq_None_iff)
  with base ne
  have "map_of (dict_set (presign_params_of self now e qp) ''X-Amz-Signature'' sg) k = Some v"
    by (simp only: map_of_dict_set presign_params_of_def map_of_dict_update map_add_def
        fun_upd_apply if_False option.case)
  then show ?thesis by (rule map_of_SomeD)
qed

lemma not_sorted_signature_after_signed_headers:
  "\<not> ''X-Amz-SignedHeaders'' \<le> ''X-Amz-Signature''"
  by code_simp

lemma presign_keys_not_sorted:
  assumes "distinct (map fst qp)"
  shows "\<not> sorted (map fst (dict_set (presign_params_of self now e qp) ''X-Amz-Signature'' sg))"
proof
  let ?five = "[''X-Amz-Algorithm'', ''X-Amz-Credential'', ''X-Amz-Date'', ''X-Amz-Expires'',
       ''X-Amz-SignedHeaders'']"
  let ?P = "\<lambda>k. k \<notin> {''X-Amz-Algorithm'', ''X-Amz-Credential'', ''X-Amz-Date'',
                          ''X-Amz-Expires'', ''X-Amz-SignedHeaders''}"
  let ?rest = "filter ?P (map fst qp)
      @ (if ''X-Amz-Signature'' \<in> fst ` set qp then [] else [''X-Amz-Signature''])"
  assume "sorted (map fst (dict_set (presign_params_of self now e qp) ''X-Amz-Signature'' sg))"
  then have "sorted (?five @ ?rest)" by (simp only: presign_keys [OF assms])
  then have le: "\<forall>x \<in> set ?five. \<forall>y \<in> set ?rest. x \<le> y"
    unfolding sorted_append by blast
  have p: "?P ''X-Amz-Signature''" by simp
  have "''X-Amz-Signature'' \<in> set ?rest"
  proof (cases "''X-Amz-Signature'' \<in> fst ` set qp")
    case True
    then have "''X-Amz-Signature'' \<in> set (filter ?P (map fst qp))"
      using p by (simp only: set_filter set_map mem_Collect_eq) simp
    then show ?thesis by (simp only: set_append Un_iff) simp
  next
    case False
    then show ?thesis by (simp only: set_append Un_iff if_False) simp
  qed
  moreover have "''X-Amz-SignedHeaders'' \<in> set ?five" by simp
  ultimately have "''X-Amz-SignedHeaders'' \<le> ''X-Amz-Signature''" using le by blast
  with not_sorted_signature_after_signed_headers show False ..
qed

lemma presign_signature_nonempty: "presign_signature self now m parsed e qp \<noteq> []"
proof -
  have "length (presign_signature self now m parsed e qp) = 64"
    unfolding presign_signature_def by (rule length_request_signature)
  then show ?thesis by auto
qed

lemma header_names_of_keys:
  "k \<in> fst ` set hs \<Longrightarrow> lower k \<in> set (spec_header_names hs)"
  by (force simp: spec_header_names_def)

lemma example_header_names:
  "sort (remdups (map lower [''Host'', ''x-amz-date'', ''x-amz-content-sha256'']))
   = [''host'', ''x-amz-content-sha256'', ''x-amz-date'']"
  by code_simp

lemma unparsable_url_raises:
  assumes "urlparse url = Inl e"
  shows "sign_request urlparse self clock method url r body query_params h = Inl e"
    and "presign_url urlparse self clock method url expires_in query_params request_date = Inl e"
  using assms by (simp_all add: sign_request_refines presign_url_eq)

section \<open>The claims\<close>

text \<open>
  C1. The canonical query string is specified to encode the space as \<open>%20\<close>, never as \<open>+\<close>.
  \<open>_get_canonical_query_string\<close> calls \<open>urlencode\<close> with its default \<open>quote_via=quote_plus\<close>,
  so for the mapping \<open>{"a": "x y"}\<close> it returns \<open>a=x+y\<close> where the specification's
  definition gives \<open>a=x%20y\<close>. The sorting part of the claim holds: both orders of
  \<open>{"a": "1", "b": "2"}\<close> give \<open>a=1&b=2\<close>.
\<close>

theorem canonical_query_space_is_plus:
  "get_canonical_query_string [(''a'', ''x y'')] = ''a=x+y''
   \<and> spec_canonical_query_string [(''a'', ''x y'')] = ''a=x%20y''
   \<and> get_canonical_query_string [(''b'', ''2''), (''a'', ''1'')] = ''a=1&b=2''
   \<and> get_canonical_query_string [(''a'', ''1''), (''b'', ''2'')] = ''a=1&b=2''"
  by code_simp

text \<open>
  C2. Two calls of \<open>sign_request\<close> with the same credentials, method, URL, body, query
  parameters and clock value, on header dicts with the same contents, return dicts with the
  same contents, whatever else the heap holds and wherever the dicts are stored; two calls
  of \<open>presign_url\<close> with the same arguments and the same explicit \<open>request_date\<close> return the
  same string, whatever the clock shows.
\<close>

theorem signing_deterministic:
  assumes "h1 ! r1 = h2 ! r2"
  shows "returned_headers (sign_request urlparse self clock method url r1 body query_params h1)
         = returned_headers (sign_request urlparse self clock method url r2 body query_params h2)
       \<and> presign_url urlparse self clock1 method url expires_in query_params (Some request_date)
         = presign_url urlparse self clock2 method url expires_in query_params (Some request_date)"
  using assms
  by (simp add: sign_request_refines presign_url_eq returned_headers_def signing_time_def
      split: sum.splits)

theorem signing_deterministic_witness:
  "returned_headers (sign_request urlparse_model test_auth test_date ''GET'' test_url 0 []
       None [[(''host'', ''localhost:9000'')]])
   = returned_headers (sign_request urlparse_model test_auth test_date ''GET'' test_url 1 []
       None [[(''other'', ''dict'')], [(''host'', ''localhost:9000'')]])
   \<and> presign_url urlparse_model test_auth test_date ''GET'' test_url 3600 None (Some test_date)
     = presign_url urlparse_model test_auth (test_date\<lparr>year := 2025\<rparr>) ''GET'' test_url 3600
         None (Some test_date)"
  using signing_deterministic [where ?h1.0 = "[[(''host'', ''localhost:9000'')]]" and ?r1.0 = 0
      and ?h2.0 = "[[(''other'', ''dict'')], [(''host'', ''localhost:9000'')]]" and ?r2.0 = 1
      and urlparse = urlparse_model and self = test_auth and clock = test_date
      and url = test_url and body = "[]" and query_params = None
      and ?clock1.0 = test_date and ?clock2.0 = "test_date\<lparr>year := 2025\<rparr>"
      and expires_in = 3600 and request_date = test_date, of "''GET''"]
  by simp

text \<open>
  C5. A request whose header set lacks \<open>host\<close> is to fail as an input error, and the
  docstring of \<open>sign_request\<close> says that the headers must include \<open>host\<close>. The code never
  inspects the header names: called with the empty header set \<open>{}\<close> and the URL
  \<open>http://localhost:9000/bucket/key\<close> it raises nothing and returns a dict holding
  \<open>x-amz-date\<close>, \<open>x-amz-content-sha256\<close> and \<open>Authorization\<close>.
\<close>

theorem missing_host_is_signed:
  "(case returned_headers (sign_request urlparse_model test_auth test_date ''GET'' test_url 0 []
            None [[]]) of
      Inl e \<Rightarrow> False
    | Inr d \<Rightarrow> map fst d = [''x-amz-date'', ''x-amz-content-sha256'', ''Authorization''])"
  by (simp add: sign_request_refines urlparse_test_url returned_headers_def signHeaders_def
      injected_headers_def Let_def)

theorem missing_host_is_signed_witness:
  "returned_headers (sign_request urlparse_model test_auth test_date ''GET'' test_url 0 []
       None [[]]) \<noteq> Inl ValueError"
  using missing_host_is_signed by (auto split: sum.splits)

text \<open>
  C6. For every header mapping the canonical headers block is the concatenation of the lines
  \<open>name:value\n\<close> over the lower-cased header names in sorted order, the value being the
  header's value with leading and trailing white space stripped and nothing else changed;
  \<open>{"Host": " x "}\<close> gives \<open>host:x\n\<close>.
\<close>

theorem canonical_headers_block:
  "fst (get_canonical_headers headers) = spec_canonical_headers headers
   \<and> fst (get_canonical_headers [(''Host'', '' x '')]) = ''host:x'' @ NL"
proof
  show "fst (get_canonical_headers headers) = spec_canonical_headers headers"
    by (simp add: get_canonical_headers_spec)
  show "fst (get_canonical_headers [(''Host'', '' x '')]) = ''host:x'' @ NL"
    by code_simp
qed

text \<open>
  C7. \<open>_get_signature_key\<close> is the four-stage HMAC-SHA256 chain of section 4.2 with the
  service \<open>s3\<close>; it depends on the secret key, the date stamp and the region only, and
  returns the 32 raw bytes of the last stage.
\<close>

theorem signing_key_chain:
  "get_signature_key self date_stamp
     = deriveSigningKey (secret_key self) date_stamp (region self) ''s3''
   \<and> length (get_signature_key self date_stamp) = 32"
  by (simp add: get_signature_key_def deriveSigningKey_def sign_def SERVICE_def Let_def
      length_hmac_sha256)

text \<open>
  C10. \<open>sign_request\<close> does not mutate the caller's headers: the dict at the caller's
  reference is the same after the call, the reference returned is a fresh one, and every
  dict that existed before the call is unchanged.
\<close>

theorem sign_request_frame:
  assumes "r < length h"
    and "sign_request urlparse self clock method url r body query_params h = Inr (r', h')"
  shows "h' ! r = h ! r \<and> r' \<noteq> r \<and> take (length h) h' = h"
  using assms by (auto simp: sign_request_refines nth_append split: sum.splits)

theorem sign_request_frame_witness:
  "case sign_request urlparse_model test_auth test_date ''GET'' test_url 0 [] None
          [[(''host'', ''localhost:9000'')]] of
     Inl e \<Rightarrow> False
   | Inr (r', h') \<Rightarrow>
       h' ! 0 = [(''host'', ''localhost:9000'')] \<and> r' \<noteq> 0
       \<and> take 1 h' = [[(''host'', ''localhost:9000'')]]"
proof -
  let ?h = "[[(''host'', ''localhost:9000'')]]"
  obtain r' h' where eq:
    "sign_request urlparse_model test_auth test_date ''GET'' test_url 0 [] None ?h = Inr (r', h')"
    by (simp add: sign_request_refines urlparse_test_url)
  have "(0::nat) < length ?h" by simp
  from sign_request_frame [OF this eq] show ?thesis by (simp add: eq)
qed

text \<open>
  C4. The claim expects the substring
  \<open>X-Amz-Credential=test-access/20240615/us-east-1/s3/aws4_request\<close> in the URL. \<open>urlencode\<close>
  is called with \<open>safe="-_.~"\<close>, so each \<open>/\<close> of the credential is written \<open>%2F\<close> and the
  URL for \<open>http://localhost:9000/bucket/key\<close> does not contain that text. And the claim is
  made for every call: an extra parameter named \<open>X-Amz-Date\<close> replaces the date, so with
  \<open>{"X-Amz-Date": "x"}\<close> the URL does not contain \<open>X-Amz-Date=20240615T120000Z\<close>.
\<close>

theorem presigned_url_substrings_counterexample:
  "(case presign_url urlparse_model test_auth test_date ''GET'' test_url 3600 None
           (Some test_date) of
      Inl e \<Rightarrow> False
    | Inr u \<Rightarrow>
        \<not> sublist ''X-Amz-Credential=test-access/20240615/us-east-1/s3/aws4_request'' u)
   \<and> (case presign_url urlparse_model test_auth test_date ''GET'' test_url 3600
           (Some [(''X-Amz-Date'', ''x'')]) (Some test_date) of
      Inl e \<Rightarrow> False
    | Inr u \<Rightarrow> \<not> sublist ''X-Amz-Date=20240615T120000Z'' u)"
proof -
  let ?p = "\<lparr>scheme = ''http'', netloc = ''localhost:9000'', path = ''/bucket/key'',
                 params = [], query = [], fragment = []\<rparr>"
  have a: "\<not> sublist ''X-Amz-Credential=test-access/20240615/us-east-1/s3/aws4_request''
     ''http://localhost:9000/bucket/key?X-Amz-Algorithm=AWS4-HMAC-SHA256&X-Amz-Credential=test-access%2F20240615%2Fus-east-1%2Fs3%2Faws4_request&X-Amz-Date=20240615T120000Z&X-Amz-Expires=3600&X-Amz-SignedHeaders=host&X-Amz-Signature=''"
    by code_simp
  have b: "\<not> sublist ''X-Amz-Date=20240615T120000Z''
     ''http://localhost:9000/bucket/key?X-Amz-Algorithm=AWS4-HMAC-SHA256&X-Amz-Credential=test-access%2F20240615%2Fus-east-1%2Fs3%2Faws4_request&X-Amz-Date=x&X-Amz-Expires=3600&X-Amz-SignedHeaders=host&X-Amz-Signature=''"
    by code_simp
  have "\<not> sublist ''X-Amz-Credential=test-access/20240615/us-east-1/s3/aws4_request''
     (''http://localhost:9000/bucket/key?X-Amz-Algorithm=AWS4-HMAC-SHA256&X-Amz-Credential=test-access%2F20240615%2Fus-east-1%2Fs3%2Faws4_request&X-Amz-Date=20240615T120000Z&X-Amz-Expires=3600&X-Amz-SignedHeaders=host&X-Amz-Signature=''
      @ presign_signature test_auth test_date ''GET'' ?p 3600 [])"
    by (rule not_sublist_append [OF a]) (simp_all add: presign_signature_no_upper)
  moreover have "\<not> sublist ''X-Amz-Date=20240615T120000Z''
     (''http://localhost:9000/bucket/key?X-Amz-Algorithm=AWS4-HMAC-SHA256&X-Amz-Credential=test-access%2F20240615%2Fus-east-1%2Fs3%2Faws4_request&X-Amz-Date=x&X-Amz-Expires=3600&X-Amz-SignedHeaders=host&X-Amz-Signature=''
      @ presign_signature test_auth test_date ''GET'' ?p 3600 [(''X-Amz-Date'', ''x'')])"
    by (rule not_sublist_append [OF b]) (simp_all add: presign_signature_no_upper)
  ultimately show ?thesis
    by (simp only: presign_test_url presign_test_url_date_override sum.case) simp
qed

text \<open>
  C4, as amended. With the fixed credentials, expiry and request date, for every method,
  every URL that \<open>urlparse\<close> accepts and every extra parameter set that does not redefine
  \<open>X-Amz-Date\<close> or \<open>X-Amz-Credential\<close>, the URL contains \<open>X-Amz-Date=20240615T120000Z\<close> and
  \<open>X-Amz-Credential=test-access%2F20240615%2Fus-east-1%2Fs3%2Faws4_request\<close>, and a repeated
  call returns the same URL whatever the clock shows.
\<close>

theorem presigned_url_substrings:
  assumes "urlparse url = Inr parsed"
    and "''X-Amz-Date'' \<notin> fst ` set (params_or_empty query_params)"
    and "''X-Amz-Credential'' \<notin> fst ` set (params_or_empty query_params)"
  shows "case presign_url urlparse test_auth clock method url 3600 query_params
               (Some test_date) of
           Inl e \<Rightarrow> False
         | Inr u \<Rightarrow>
             sublist ''X-Amz-Date=20240615T120000Z'' u
             \<and> sublist ''X-Amz-Credential=test-access%2F20240615%2Fus-east-1%2Fs3%2Faws4_request'' u
             \<and> presign_url urlparse test_auth clock' method url 3600 query_params
                   (Some test_date) = Inr u"
proof -
  let ?qp = "params_or_empty query_params"
  let ?sg = "presign_signature test_auth test_date method parsed 3600 ?qp"
  let ?d = "dict_set (presign_params_of test_auth test_date 3600 ?qp) ''X-Amz-Signature'' ?sg"
  let ?pre = "scheme parsed @ ''://'' @ netloc parsed @ path_or_root parsed @ ''?''"
  have u: "presign_url urlparse test_auth c method url 3600 query_params (Some test_date)
           = Inr (?pre @ urlencode ?d ''-_.~'')" for c
    by (simp add: presign_url_eq assms(1) signing_time_def)
  have "(''X-Amz-Date'', ''20240615T120000Z'') \<in> set ?d"
    by (rule presign_params_base_entry [OF _ assms(2)]) (simp add: strftime_test_date)
  from sublist_urlencode [OF this, of "''-_.~''"]
  have 1: "sublist ''X-Amz-Date=20240615T120000Z'' (urlencode ?d ''-_.~'')"
    by (simp add: quote_plus_examples)
  have "(''X-Amz-Credential'', ''test-access/20240615/us-east-1/s3/aws4_request'') \<in> set ?d"
    by (rule presign_params_base_entry [OF _ assms(3)])
      (simp add: test_auth_def credential_scope_of_def strftime_test_date SERVICE_def)
  from sublist_urlencode [OF this, of "''-_.~''"]
  have 2: "sublist ''X-Amz-Credential=test-access%2F20240615%2Fus-east-1%2Fs3%2Faws4_request''
             (urlencode ?d ''-_.~'')"
    by (simp add: quote_plus_examples)
  have sub: "sublist n (?pre @ urlencode ?d ''-_.~'')" if "sublist n (urlencode ?d ''-_.~'')" for n
    using that by (simp only: sublist_append [of n ?pre]) simp
  show ?thesis
    unfolding u sum.case using sub [OF 1] sub [OF 2] by simp
qed

theorem presigned_url_substrings_witness:
  "case presign_url urlparse_model test_auth test_date ''PUT'' test_url 3600
          (Some [(''versionId'', ''v123'')]) (Some test_date) of
     Inl e \<Rightarrow> False
   | Inr u \<Rightarrow>
       sublist ''X-Amz-Date=20240615T120000Z'' u
       \<and> sublist ''X-Amz-Credential=test-access%2F20240615%2Fus-east-1%2Fs3%2Faws4_request'' u
       \<and> presign_url urlparse_model test_auth (test_date\<lparr>year := 2025\<rparr>) ''PUT'' test_url 3600
             (Some [(''versionId'', ''v123'')]) (Some test_date) = Inr u"
  by (rule presigned_url_substrings [where urlparse = urlparse_model and url = test_url,
        OF urlparse_test_url])
    (simp_all add: params_or_empty_def)

text \<open>
  C3, as amended. \<open>presign_url\<close> returns \<open>scheme://host/path?Q\<close> where \<open>Q\<close> is the
  \<open>urlencode\<close> of the presign parameter dict in insertion order: the five \<open>X-Amz-*\<close>
  parameters, then the caller's other parameters in the caller's order, then
  \<open>X-Amz-Signature\<close> (stored after the signature is computed; in place when the caller
  supplied that key). These keys are never in sorted order; only the canonical query
  string that is signed is sorted.
\<close>

theorem presigned_url_query_order:
  assumes "urlparse url = Inr parsed"
    and "distinct (map fst (params_or_empty query_params))"
  shows "\<exists>d. presign_url urlparse self clock method url expires_in query_params request_date
             = Inr (scheme parsed @ ''://'' @ netloc parsed @ path_or_root parsed @ ''?''
                    @ urlencode d ''-_.~'')
           \<and> map fst d =
               [''X-Amz-Algorithm'', ''X-Amz-Credential'', ''X-Amz-Date'', ''X-Amz-Expires'',
                ''X-Amz-SignedHeaders'']
               @ filter (\<lambda>k. k \<notin> {''X-Amz-Algorithm'', ''X-Amz-Credential'', ''X-Amz-Date'',
                                   ''X-Amz-Expires'', ''X-Amz-SignedHeaders''})
                   (map fst (params_or_empty query_params))
               @ (if ''X-Amz-Signature'' \<in> fst ` set (params_or_empty query_params) then []
                  else [''X-Amz-Signature''])
           \<and> map_of d ''X-Amz-Signature''
               = Some (presign_signature self (signing_time request_date clock) method parsed
                         expires_in (params_or_empty query_params))
           \<and> \<not> sorted (map fst d)"
proof -
  let ?qp = "params_or_empty query_params"
  let ?now = "signing_time request_date clock"
  let ?sg = "presign_signature self ?now method parsed expires_in ?qp"
  let ?d = "dict_set (presign_params_of self ?now expires_in ?qp) ''X-Amz-Signature'' ?sg"
  have "presign_url urlparse self clock method url expires_in query_params request_date
          = Inr (scheme parsed @ ''://'' @ netloc parsed @ path_or_root parsed @ ''?''
                 @ urlencode ?d ''-_.~'')"
    by (simp add: presign_url_eq assms(1))
  moreover note presign_keys [OF assms(2), of self ?now expires_in ?sg]
  moreover have "map_of ?d ''X-Amz-Signature'' = Some ?sg" by (simp add: map_of_dict_set)
  moreover note presign_keys_not_sorted [OF assms(2), of self ?now expires_in ?sg]
  ultimately show ?thesis by blast
qed

theorem presigned_url_query_order_witness:
  "\<exists>d. presign_url urlparse_model test_auth test_date ''GET'' test_url 3600
            (Some [(''versionId'', ''v123'')]) None
          = Inr (''http://localhost:9000/bucket/key?'' @ urlencode d ''-_.~'')
        \<and> map fst d =
            [''X-Amz-Algorithm'', ''X-Amz-Credential'', ''X-Amz-Date'', ''X-Amz-Expires'',
             ''X-Amz-SignedHeaders'', ''versionId'', ''X-Amz-Signature'']
        \<and> \<not> sorted (map fst d)"
proof -
  let ?p = "\<lparr>scheme = ''http'', netloc = ''localhost:9000'', path = ''/bucket/key'',
                 params = [], query = [], fragment = []\<rparr>"
  have dist: "distinct (map fst (params_or_empty (Some [(''versionId'', ''v123'')])))"
    by (simp add: params_or_empty_def)
  from presigned_url_query_order [where urlparse = urlparse_model and url = test_url
      and parsed = ?p and query_params = "Some [(''versionId'', ''v123'')]" and self = test_auth
      and clock = test_date and expires_in = 3600 and request_date = None,
      OF urlparse_test_url dist, of "''GET''"]
  obtain d where
    "presign_url urlparse_model test_auth test_date ''GET'' test_url 3600
            (Some [(''versionId'', ''v123'')]) None
       = Inr (scheme ?p @ ''://'' @ netloc ?p @ path_or_root ?p @ ''?'' @ urlencode d ''-_.~'')"
    and "map fst d =
            [''X-Amz-Algorithm'', ''X-Amz-Credential'', ''X-Amz-Date'', ''X-Amz-Expires'',
             ''X-Amz-SignedHeaders'']
            @ filter (\<lambda>k. k \<notin> {''X-Amz-Algorithm'', ''X-Amz-Credential'', ''X-Amz-Date'',
                                ''X-Amz-Expires'', ''X-Amz-SignedHeaders''})
                (map fst (params_or_empty (Some [(''versionId'', ''v123'')])))
            @ (if ''X-Amz-Signature'' \<in> fst ` set (params_or_empty (Some [(''versionId'', ''v123'')]))
               then [] else [''X-Amz-Signature''])"
    and "\<not> sorted (map fst d)"
    by blast
  then have "presign_url urlparse_model test_auth test_date ''GET'' test_url 3600
            (Some [(''versionId'', ''v123'')]) None
          = Inr (''http://localhost:9000/bucket/key?'' @ urlencode d ''-_.~'')
        \<and> map fst d =
            [''X-Amz-Algorithm'', ''X-Amz-Credential'', ''X-Amz-Date'', ''X-Amz-Expires'',
             ''X-Amz-SignedHeaders'', ''versionId'', ''X-Amz-Signature'']
        \<and> \<not> sorted (map fst d)"
    by (simp add: params_or_empty_def path_or_root_def)
  then show ?thesis ..
qed

text \<open>
  C3. The claim says that the query string of the returned URL is sorted by parameter key.
  For \<open>http://localhost:9000/bucket/key\<close> without extra parameters, the keys read back from
  the returned URL are not in sorted order: \<open>X-Amz-Signature\<close> comes last, after
  \<open>X-Amz-SignedHeaders\<close>, and is smaller.
\<close>

theorem presigned_query_not_sorted:
  "case presign_url urlparse_model test_auth test_date ''GET'' test_url 3600 None
          (Some test_date) of
     Inl e \<Rightarrow> False
   | Inr u \<Rightarrow> \<not> sorted (map fst (parse_qsl (url_query u) False))"
proof -
  let ?p = "\<lparr>scheme = ''http'', netloc = ''localhost:9000'', path = ''/bucket/key'',
                 params = [], query = [], fragment = []\<rparr>"
  let ?sg = "presign_signature test_auth test_date ''GET'' ?p 3600 []"
  let ?d = "dict_set (presign_params_of test_auth test_date 3600 []) ''X-Amz-Signature'' ?sg"
  have u: "presign_url urlparse_model test_auth test_date ''GET'' test_url 3600 None
             (Some test_date) = Inr (''http://localhost:9000/bucket/key?'' @ urlencode ?d ''-_.~'')"
    by (simp add: presign_url_eq urlparse_test_url signing_time_def params_or_empty_def
        path_or_root_def)
  have q: "url_query (''http://localhost:9000/bucket/key?'' @ urlencode ?d ''-_.~'')
           = urlencode ?d ''-_.~''"
    by (simp add: url_query_def split_first_def)
  have "?sg \<noteq> []"
    using length_request_signature [of test_auth test_date "''GET''" "path_or_root ?p"
        "presign_params_of test_auth test_date 3600 []" "(''host:'' @ netloc ?p @ NL, ''host'')"
        "''UNSIGNED-PAYLOAD''"]
    by (auto simp: presign_signature_def)
  then have "\<forall>x \<in> set ?d. case x of (k, v) \<Rightarrow> v \<noteq> [] \<or> False"
    using presign_params_values [of _ _ test_auth test_date 3600 "[]" ?sg] by auto
  then have "filter (\<lambda>(k, v). v \<noteq> [] \<or> False) ?d = ?d" by (simp only: filter_True)
  then have "parse_qsl (urlencode ?d ''-_.~'') False = ?d" by (simp only: parse_qsl_urlencode)
  moreover have "\<not> sorted (map fst ?d)" by (rule presign_keys_not_sorted) simp
  ultimately show ?thesis by (simp only: u q sum.case) simp
qed

text \<open>
  C9. The query string of every presigned URL, read back pair by pair as it was written
  (blank values kept), has no key twice, and its keys are exactly the six \<open>X-Amz-*\<close>
  parameters and the keys of the caller's extra parameters; every extra parameter comes
  back with the value supplied (the key \<open>X-Amz-Signature\<close> carries the signature). When no
  extra value is empty, \<open>parse_qsl\<close> with its defaults reads back the same pairs.
\<close>

theorem presigned_query_round_trip:
  assumes "urlparse url = Inr parsed"
    and "distinct (map fst (params_or_empty query_params))"
  shows "\<exists>Q. presign_url urlparse self clock method url expires_in query_params request_date
             = Inr (scheme parsed @ ''://'' @ netloc parsed @ path_or_root parsed @ ''?'' @ Q)
           \<and> distinct (map fst (parse_qsl Q True))
           \<and> set (map fst (parse_qsl Q True))
               = {''X-Amz-Algorithm'', ''X-Amz-Credential'', ''X-Amz-Date'', ''X-Amz-Expires'',
                  ''X-Amz-SignedHeaders'', ''X-Amz-Signature''}
                 \<union> fst ` set (params_or_empty query_params)
           \<and> (\<forall>(k, v) \<in> set (params_or_empty query_params).
                 k \<noteq> ''X-Amz-Signature'' \<longrightarrow> (k, v) \<in> set (parse_qsl Q True))
           \<and> ((\<forall>(k, v) \<in> set (params_or_empty query_params). v \<noteq> [])
                 \<longrightarrow> parse_qsl Q False = parse_qsl Q True)"
proof -
  let ?qp = "params_or_empty query_params"
  let ?now = "signing_time request_date clock"
  let ?sg = "presign_signature self ?now method parsed expires_in ?qp"
  let ?d = "dict_set (presign_params_of self ?now expires_in ?qp) ''X-Amz-Signature'' ?sg"
  let ?Q = "urlencode ?d ''-_.~''"
  have u: "presign_url urlparse self clock method url expires_in query_params request_date
          = Inr (scheme parsed @ ''://'' @ netloc parsed @ path_or_root parsed @ ''?'' @ ?Q)"
    by (simp add: presign_url_eq assms(1))
  have all: "parse_qsl ?Q True = ?d"
    by (simp add: parse_qsl_urlencode)
  have 1: "distinct (map fst (parse_qsl ?Q True))"
    unfolding all by (rule presign_params_distinct)
  have 2: "set (map fst (parse_qsl ?Q True))
               = {''X-Amz-Algorithm'', ''X-Amz-Credential'', ''X-Amz-Date'', ''X-Amz-Expires'',
                  ''X-Amz-SignedHeaders'', ''X-Amz-Signature''} \<union> fst ` set ?qp"
    unfolding all set_map by (rule presign_params_keys)
  have 3: "\<forall>(k, v) \<in> set ?qp. k \<noteq> ''X-Amz-Signature'' \<longrightarrow> (k, v) \<in> set (parse_qsl ?Q True)"
    unfolding all using presign_params_extra [OF assms(2)] by blast
  have 4: "parse_qsl ?Q False = parse_qsl ?Q True" if ne: "\<forall>(k, v) \<in> set ?qp. v \<noteq> []"
  proof -
    have "\<forall>x \<in> set ?d. case x of (k, v) \<Rightarrow> v \<noteq> [] \<or> False"
      using presign_params_values [of _ _ self ?now expires_in ?qp ?sg,
          OF _ presign_signature_nonempty ne]
      by (simp only: Ball_def case_prod_beta) (metis prod.collapse)
    then have "filter (\<lambda>(k, v). v \<noteq> [] \<or> False) ?d = ?d" by (simp only: filter_True)
    then show ?thesis unfolding all by (simp only: parse_qsl_urlencode)
  qed
  from u 1 2 3 4 show ?thesis by blast
qed

theorem presigned_query_round_trip_witness:
  "\<exists>Q. presign_url urlparse_model test_auth test_date ''GET'' test_url 3600
            (Some [(''versionId'', ''v123'')]) None
          = Inr (''http://localhost:9000/bucket/key?'' @ Q)
        \<and> distinct (map fst (parse_qsl Q True))
        \<and> set (map fst (parse_qsl Q True))
            = {''X-Amz-Algorithm'', ''X-Amz-Credential'', ''X-Amz-Date'', ''X-Amz-Expires'',
               ''X-Amz-SignedHeaders'', ''X-Amz-Signature''} \<union> {''versionId''}
        \<and> (''versionId'', ''v123'') \<in> set (parse_qsl Q True)
        \<and> parse_qsl Q False = parse_qsl Q True"
proof -
  let ?p = "\<lparr>scheme = ''http'', netloc = ''localhost:9000'', path = ''/bucket/key'',
                 params = [], query = [], fragment = []\<rparr>"
  let ?qp = "params_or_empty (Some [(''versionId'', ''v123'')])"
  have dist: "distinct (map fst ?qp)"
    by (simp add: params_or_empty_def)
  from presigned_query_round_trip [where urlparse = urlparse_model and url = test_url
      and parsed = ?p and query_params = "Some [(''versionId'', ''v123'')]" and self = test_auth
      and clock = test_date and expires_in = 3600 and request_date = None,
      OF urlparse_test_url dist, of "''GET''"]
  obtain Q where
    "presign_url urlparse_model test_auth test_date ''GET'' test_url 3600
            (Some [(''versionId'', ''v123'')]) None
       = Inr (scheme ?p @ ''://'' @ netloc ?p @ path_or_root ?p @ ''?'' @ Q)
     \<and> distinct (map fst (parse_qsl Q True))
     \<and> set (map fst (parse_qsl Q True))
               = {''X-Amz-Algorithm'', ''X-Amz-Credential'', ''X-Amz-Date'', ''X-Amz-Expires'',
                  ''X-Amz-SignedHeaders'', ''X-Amz-Signature''} \<union> fst ` set ?qp
     \<and> (\<forall>(k, v) \<in> set ?qp. k \<noteq> ''X-Amz-Signature'' \<longrightarrow> (k, v) \<in> set (parse_qsl Q True))
     \<and> ((\<forall>(k, v) \<in> set ?qp. v \<noteq> []) \<longrightarrow> parse_qsl Q False = parse_qsl Q True)"
    (is "?A \<and> ?B \<and> ?C \<and> ?D \<and> ?E")
    ..
  then have A: ?A and r1: "?B \<and> ?C \<and> ?D \<and> ?E" by (rule conjunct1, rule conjunct2)
  from r1 have B: ?B and r2: "?C \<and> ?D \<and> ?E" by (rule conjunct1, rule conjunct2)
  from r2 have C: ?C and r3: "?D \<and> ?E" by (rule conjunct1, rule conjunct2)
  from r3 have D: ?D and E: ?E by (rule conjunct1, rule conjunct2)
  have qp: "?qp = [(''versionId'', ''v123'')]" by (simp add: params_or_empty_def)
  have 1: "presign_url urlparse_model test_auth test_date ''GET'' test_url 3600
            (Some [(''versionId'', ''v123'')]) None
          = Inr (''http://localhost:9000/bucket/key?'' @ Q)"
    using A by (simp add: path_or_root_def)
  have 3: "set (map fst (parse_qsl Q True))
            = {''X-Amz-Algorithm'', ''X-Amz-Credential'', ''X-Amz-Date'', ''X-Amz-Expires'',
               ''X-Amz-SignedHeaders'', ''X-Amz-Signature''} \<union> {''versionId''}"
    unfolding C qp by (simp only: list.set image_insert image_empty fst_conv)
  have 4: "(''versionId'', ''v123'') \<in> set (parse_qsl Q True)"
    using D unfolding qp by simp
  have 5: "parse_qsl Q False = parse_qsl Q True"
    using E unfolding qp by simp
  from 1 B 3 4 5 show ?thesis by (intro exI [of _ Q] conjI)
qed

text \<open>
  C8. For every input of \<open>sign_request\<close> whose URL parses: the returned mapping is the input
  header set with \<open>x-amz-date\<close>, \<open>x-amz-content-sha256\<close> and then \<open>Authorization\<close> stored;
  the canonical headers that are signed are built from the header set that already holds
  the two injected headers; the \<open>SignedHeaders\<close> component is the \<open>;\<close>-joined list of exactly
  the sorted lower-cased names whose lines make the canonical-headers block, and this list
  contains \<open>x-amz-date\<close> and \<open>x-amz-content-sha256\<close>.
\<close>

theorem sign_request_signed_headers:
  assumes "urlparse url = Inr parsed"
  shows "let headers' = dict_set (dict_set (h ! r) ''x-amz-date'' (strftime_amz clock))
                          ''x-amz-content-sha256'' (sha256_hash body);
             names = spec_header_names headers'
         in returned_headers
              (sign_request urlparse self clock method url r body query_params h)
            = Inr (dict_set headers' ''Authorization''
                (ALGORITHM @ '' Credential='' @ access_key self @ ''/''
                 @ credential_scope_of self clock
                 @ '', SignedHeaders='' @ str_join '';'' names
                 @ '', Signature=''
                 @ request_signature self clock method (path_or_root parsed)
                     (params_or_empty query_params)
                     (concat (map (\<lambda>n. n @ '':'' @ spec_header_value headers' n @ NL) names),
                      str_join '';'' names)
                     (sha256_hash body)))
            \<and> get_canonical_headers headers'
                = (concat (map (\<lambda>n. n @ '':'' @ spec_header_value headers' n @ NL) names),
                   str_join '';'' names)
            \<and> ''x-amz-date'' \<in> set names \<and> ''x-amz-content-sha256'' \<in> set names
            \<and> map_of headers' ''x-amz-date'' = Some (strftime_amz clock)
            \<and> map_of headers' ''x-amz-content-sha256'' = Some (sha256_hash body)"
proof -
  let ?hs = "dict_set (dict_set (h ! r) ''x-amz-date'' (strftime_amz clock))
                          ''x-amz-content-sha256'' (sha256_hash body)"
  have gch: "get_canonical_headers ?hs
        = (concat (map (\<lambda>n. n @ '':'' @ spec_header_value ?hs n @ NL) (spec_header_names ?hs)),
           str_join '';'' (spec_header_names ?hs))"
    by (simp add: get_canonical_headers_spec spec_canonical_headers_def spec_signed_headers_def)
  have ret: "returned_headers
              (sign_request urlparse self clock method url r body query_params h)
            = Inr (signHeaders self clock method parsed (h ! r) body
                     (params_or_empty query_params))"
    by (simp add: sign_request_refines assms returned_headers_def)
  have "''x-amz-date'' \<in> fst ` set ?hs" "''x-amz-content-sha256'' \<in> fst ` set ?hs"
    by (simp_all add: set_dict_set_keys)
  then have names: "''x-amz-date'' \<in> set (spec_header_names ?hs)"
    "''x-amz-content-sha256'' \<in> set (spec_header_names ?hs)"
    using header_names_of_keys [of "''x-amz-date''" ?hs]
      header_names_of_keys [of "''x-amz-content-sha256''" ?hs]
    by (simp_all add: lower_amz_names)
  have vals: "map_of ?hs ''x-amz-date'' = Some (strftime_amz clock)"
    "map_of ?hs ''x-amz-content-sha256'' = Some (sha256_hash body)"
    by (simp_all add: map_of_dict_set)
  show ?thesis
    unfolding Let_def ret
    using names vals gch
    by (simp add: signHeaders_def injected_headers_def Let_def)
qed

theorem sign_request_signed_headers_witness:
  "case returned_headers (sign_request urlparse_model test_auth test_date ''GET'' test_url 0 []
          None [[(''Host'', ''localhost:9000'')]]) of
     Inl e \<Rightarrow> False
   | Inr d \<Rightarrow>
       map fst d = [''Host'', ''x-amz-date'', ''x-amz-content-sha256'', ''Authorization'']
       \<and> prefix ''AWS4-HMAC-SHA256 Credential=test-access/20240615/us-east-1/s3/aws4_request, SignedHeaders=host;x-amz-content-sha256;x-amz-date, Signature=''
            (snd (last d))"
proof -
  let ?hs = "[(''Host'', ''localhost:9000''), (''x-amz-date'', ''20240615T120000Z''),
              (''x-amz-content-sha256'', sha256_hash [])]"
  have hs: "dict_set (dict_set ([[(''Host'', ''localhost:9000'')]] ! 0) ''x-amz-date''
                (strftime_amz test_date)) ''x-amz-content-sha256'' (sha256_hash []) = ?hs"
    by (simp add: strftime_test_date)
  have "spec_header_names ?hs
        = sort (remdups (map lower [''Host'', ''x-amz-date'', ''x-amz-content-sha256'']))"
    unfolding spec_header_names_def sorted_list_of_set_sort_remdups [symmetric] by simp
  then have names: "spec_header_names ?hs = [''host'', ''x-amz-content-sha256'', ''x-amz-date'']"
    by (simp only: example_header_names)
  from sign_request_signed_headers [where urlparse = urlparse_model and url = test_url
      and self = test_auth and clock = test_date and r = 0 and body = "[]"
      and query_params = None and h = "[[(''Host'', ''localhost:9000'')]]",
      OF urlparse_test_url, of "''GET''"]
  show ?thesis
    unfolding Let_def hs names
    by (simp add: ALGORITHM_def test_auth_def credential_scope_of_def strftime_test_date
        SERVICE_def)
qed

end
